theory Spec2Isabelle
  imports Main "HOL-Library.Word"
begin

section \<open>danetls: the DANE/PKIX test client of \<open>danetls.c\<close>\<close>

text \<open>
  The program is one C function, \<open>main\<close>, that talks to three libraries: ldns (through
  \<open>get_resolver\<close>, \<open>get_addresses\<close>, \<open>get_tlsa\<close>), the socket interface and OpenSSL.
  The embedding follows \<open>main\<close> from line 247 (after option parsing) to its \<open>return\<close>:

  \<^item> the configuration that \<open>parse_options\<close> leaves in the globals is a record;
  \<^item> everything a library call answers is an input: a record of answers for the DNS
    phase and the shared TLS context (\<open>world\<close>), and one record of answers for each
    resolved address (\<open>answers\<close>);
  \<^item> every library call and every diagnostic line the program issues is an event, and a
    run yields the list of its events in program order;
  \<^item> the three counters of \<open>main\<close> are a record that is passed through the loop;
  \<^item> the loop \<open>while (SSL_shutdown(ssl) == 0) ;\<close> has no bound in the source, so the
    model of a run is option-valued: \<open>None\<close> is a run that never leaves that loop.

  Not modelled: the text written to standard output (progress lines, certificate chain
  dumps under \<open>-d\<close>), the arguments of formatted diagnostics, the calls that only feed
  that output (\<open>SSL_get0_peername\<close>, \<open>SSL_get0_dane_authority\<close>, \<open>SSL_get0_dane_tlsa\<close>),
  and \<open>SSL_CTX_new\<close> returning \<open>NULL\<close> (the source does not test for it).

  A call on a session that the program has already freed is an event like any other, and
  is answered from the same record of answers: the model follows the control flow of the
  source and leaves it to the trace to show the call after \<open>SSL_free\<close>.
\<close>

subsection \<open>Data\<close>

text \<open>\<open>enum AUTH_MODE\<close> and the values of the global \<open>starttls\<close>, with the names that
  \<open>main\<close> and \<open>parse_options\<close> use (their declarations are in \<open>common.h\<close> and
  \<open>starttls.h\<close>).\<close>

datatype AUTH_MODE = MODE_BOTH | MODE_DANE | MODE_PKIX

datatype STARTTLS = STARTTLS_NONE | STARTTLS_SMTP | STARTTLS_XMPP_CLIENT | STARTTLS_XMPP_SERVER

text \<open>One node of the TLSA list: the fields \<open>main\<close> reads through \<open>rp->\<close>, with the
  width of the locals \<open>usage\<close>, \<open>selector\<close>, \<open>mtype\<close> of line 223. The length
  \<open>data_len\<close> is the length of the list.\<close>

record tlsa_rdata =
  usage :: "8 word"
  selector :: "8 word"
  mtype :: "8 word"
  data :: "8 word list"

datatype family = AF_INET | AF_INET6 | AF_other

record addrinfo =
  ai_family :: family
  ai_addr :: "8 word list"
  ai_port :: "16 word"

text \<open>The globals set by \<open>parse_options\<close>, and the two positional arguments.\<close>

record config =
  auth_mode :: AUTH_MODE
  CAfile :: "string option"
  starttls :: STARTTLS
  service_name :: "string option"
  hostname :: string
  port :: "16 word"

text \<open>
  What the libraries answer while one address is served. \<open>SSL_dane_tlsa_add_rc\<close> is the
  return value of \<open>SSL_dane_tlsa_add\<close> for a record; \<open>SSL_shutdown_rc n\<close> is the return
  value of the \<open>n\<close>-th call (from 0) of \<open>SSL_shutdown\<close> on this session.
\<close>

record answers =
  socket_rc :: int
  connect_rc :: int
  SSL_new_ok :: bool
  SSL_dane_enable_rc :: int
  SSL_set1_host_rc :: int
  SSL_dane_tlsa_add_rc :: "tlsa_rdata \<Rightarrow> int"
  do_starttls_rc :: int
  SSL_connect_rc :: int
  SSL_get_verify_result_rc :: int
  SSL_shutdown_rc :: "nat \<Rightarrow> int"

text \<open>
  What the DNS phase and the shared TLS context answer. The four DNSSEC flags are the
  values of the globals of \<open>query-ldns\<close> when \<open>main\<close> reads them (line 261 onwards); they
  are C integers, tested against 0. Each resolved address comes with the answers the
  libraries will give while it is served.
\<close>

record world =
  resolver_ok :: bool
  get_addresses_ans :: "(addrinfo \<times> answers) list"
  get_tlsa_ans :: "tlsa_rdata list"
  dns_bogus_or_indeterminate :: int
  tlsa_authenticated :: int
  v4_authenticated :: int
  v6_authenticated :: int
  CA_load_rc :: int
  SSL_CTX_dane_enable_rc :: int

text \<open>Library calls and diagnostic lines, in the order the program issues them.\<close>

datatype event =
    Get_resolver
  | Get_addresses
  | Get_tlsa
  | Resolver_deep_free
  | SSL_CTX_new
  | SSL_CTX_set_default_verify_paths
  | SSL_CTX_load_verify_locations string
  | SSL_CTX_set_verify_NONE
  | SSL_CTX_set_verify_depth nat
  | SSL_CTX_dane_enable
  | Socket addrinfo
  | Connect addrinfo
  | Close
  | SSL_new
  | SSL_free
  | SSL_dane_enable string
  | SSL_set1_host string
  | SSL_set_tlsext_host_name string
  | SSL_set_hostflags nat
  | SSL_set_connect_state
  | SSL_set_bio
  | SSL_set_mode_AUTO_RETRY
  | SSL_dane_tlsa_add tlsa_rdata
  | Do_starttls
  | SSL_connect
  | SSL_get_verify_result
  | SSL_shutdown
  | Freeaddrinfo
  | Free_tlsa
  | SSL_CTX_free
  | Diag string

text \<open>Two constants of the OpenSSL headers.\<close>

definition X509_CHECK_FLAG_NO_PARTIAL_WILDCARDS :: nat where
  "X509_CHECK_FLAG_NO_PARTIAL_WILDCARDS = 4"

definition X509_V_OK :: int where
  "X509_V_OK = 0"

text \<open>\<open>count_success\<close>, \<open>count_fail\<close>, \<open>count_tlsa_usable\<close> (line 211): C \<open>int\<close>s that
  start at 0 and are only incremented, far below the range of \<open>int\<close>.\<close>

record counters =
  count_success :: int
  count_fail :: int
  count_tlsa_usable :: int

definition counters0 :: counters where
  "counters0 = \<lparr>count_success = 0, count_fail = 0, count_tlsa_usable = 0\<rparr>"

text \<open>The variables of \<open>main\<close> that the DNS and context phase sets, the events so far,
  and whether that phase left by \<open>goto cleanup\<close>.\<close>

record vars =
  addresses :: "(addrinfo \<times> answers) list"
  tlsa_rdata_list :: "tlsa_rdata list"
  attempt_dane :: bool
  ctx :: bool
  goto_cleanup :: bool
  events :: "event list"

record result =
  status :: int
  trace :: "event list"
  final :: counters

subsection \<open>Lines 247--338: DNS queries, the DANE decision, the TLS context\<close>

text \<open>Lines 270--285. The result is the diagnostics printed, whether the block leaves by
  \<open>goto cleanup\<close>, and the value of \<open>attempt_dane\<close> after it.\<close>

definition dane_decision ::
  "AUTH_MODE \<Rightarrow> tlsa_rdata list \<Rightarrow> int \<Rightarrow> int \<Rightarrow> int \<Rightarrow> event list \<times> bool \<times> bool" where
  "dane_decision m tlsa tlsa_auth v4 v6 =
     (if m = MODE_DANE \<or> m = MODE_BOTH then
        (if tlsa = [] then ([], m = MODE_DANE, False)
         else if tlsa_auth = 0 then ([Diag ''Insecure TLSA records.''], m = MODE_DANE, False)
         else if v4 = 0 \<or> v6 = 0 then
           ([Diag ''Insecure Address records.''], m = MODE_DANE, False)
         else ([], False, True))
      else ([], False, False))"

text \<open>Lines 310--338, entered with the events so far. \<open>CA_load_rc\<close> is the answer of
  the call that loads the trust store: \<open>SSL_CTX_set_default_verify_paths\<close> without
  \<open>-c\<close>, \<open>SSL_CTX_load_verify_locations\<close> with it.\<close>

definition context_setup :: "config \<Rightarrow> world \<Rightarrow> vars \<Rightarrow> vars" where
  "context_setup cfg w v =
     (let load = (case CAfile cfg of
                    None \<Rightarrow> SSL_CTX_set_default_verify_paths
                  | Some file \<Rightarrow> SSL_CTX_load_verify_locations file);
          complaint = (case CAfile cfg of
                    None \<Rightarrow> Diag ''Failed to load default certificate authorities.''
                  | Some file \<Rightarrow> Diag ''Failed to load certificate authority store'')
      in if CA_load_rc w = 0 then
           v\<lparr>ctx := True, goto_cleanup := True,
             events := events v @ [SSL_CTX_new, load, complaint]\<rparr>
         else if SSL_CTX_dane_enable_rc w \<le> 0 then
           v\<lparr>ctx := True, goto_cleanup := True,
             events := events v @ [SSL_CTX_new, load, SSL_CTX_set_verify_NONE,
               SSL_CTX_set_verify_depth 10, SSL_CTX_dane_enable,
               Diag ''Unable to enable DANE on SSL context.'']\<rparr>
         else
           v\<lparr>ctx := True,
             events := events v @ [SSL_CTX_new, load, SSL_CTX_set_verify_NONE,
               SSL_CTX_set_verify_depth 10, SSL_CTX_dane_enable]\<rparr>)"

text \<open>Lines 247--338.\<close>

definition startup :: "config \<Rightarrow> world \<Rightarrow> vars" where
  "startup cfg w =
     (if \<not> resolver_ok w then
        \<lparr>addresses = [], tlsa_rdata_list = [], attempt_dane = False, ctx = False,
         goto_cleanup = True, events = [Get_resolver]\<rparr>
      else
        let lookup = auth_mode cfg \<noteq> MODE_PKIX;
            v = \<lparr>addresses = get_addresses_ans w,
                 tlsa_rdata_list = (if lookup then get_tlsa_ans w else []),
                 attempt_dane = False, ctx = False, goto_cleanup = False,
                 events = [Get_resolver, Get_addresses] @ (if lookup then [Get_tlsa] else [])
                   @ [Resolver_deep_free]\<rparr>
        in if dns_bogus_or_indeterminate w \<noteq> 0 then v\<lparr>goto_cleanup := True\<rparr>
           else
             (case dane_decision (auth_mode cfg) (tlsa_rdata_list v) (tlsa_authenticated w)
                     (v4_authenticated w) (v6_authenticated w) of
                (msgs, leave, dane) \<Rightarrow>
                  if leave then v\<lparr>goto_cleanup := True, events := events v @ msgs\<rparr>
                  else context_setup cfg w (v\<lparr>attempt_dane := dane, events := events v @ msgs\<rparr>)))"

subsection \<open>Lines 345--524: the loop over the addresses\<close>

text \<open>
  Lines 426--443, the loop over the TLSA records of one session. The \<open>continue\<close> of
  line 435 belongs to this inner \<open>for\<close>: after \<open>SSL_free\<close>, \<open>close\<close> and \<open>count_fail++\<close>
  the loop goes on with the next record.
\<close>

fun tlsa_loop :: "(tlsa_rdata \<Rightarrow> int) \<Rightarrow> tlsa_rdata list \<Rightarrow> counters \<Rightarrow> event list \<times> counters" where
  "tlsa_loop add [] c = ([], c)"
| "tlsa_loop add (rp # rest) c =
     (if add rp < 0 then
        (case tlsa_loop add rest (c\<lparr>count_fail := count_fail c + 1\<rparr>) of
           (t, c') \<Rightarrow>
             ([SSL_dane_tlsa_add rp, Diag ''SSL_dane_tlsa_add() failed.'', SSL_free, Close] @ t, c'))
      else if add rp = 0 then
        (case tlsa_loop add rest c of
           (t, c') \<Rightarrow> ([SSL_dane_tlsa_add rp, Diag ''Unusable TLSA record''] @ t, c'))
      else
        (case tlsa_loop add rest (c\<lparr>count_tlsa_usable := count_tlsa_usable c + 1\<rparr>) of
           (t, c') \<Rightarrow> ([SSL_dane_tlsa_add rp] @ t, c')))"

text \<open>Line 518: \<open>while (SSL_shutdown(ssl) == 0) ;\<close>. The result is the number of calls
  made; there is none when every call answers 0.\<close>

partial_function (option) shutdown_loop :: "(nat \<Rightarrow> int) \<Rightarrow> nat \<Rightarrow> nat option" where
  "shutdown_loop rc n = (if rc n = 0 then shutdown_loop rc (Suc n) else Some (Suc n))"

declare shutdown_loop.simps [code]

text \<open>Lines 446--522: the rest of one iteration once the session is bound.\<close>

definition session_run :: "config \<Rightarrow> answers \<Rightarrow> counters \<Rightarrow> (event list \<times> counters) option" where
  "session_run cfg ans c =
     (if auth_mode cfg = MODE_DANE \<and> count_tlsa_usable c = 0 then
        Some ([Diag ''No usable TLSA records present.'', SSL_free, Close],
              c\<lparr>count_fail := count_fail c + 1\<rparr>)
      else if starttls cfg \<noteq> STARTTLS_NONE \<and> do_starttls_rc ans = 0 then
        Some ([Do_starttls, Diag ''STARTTLS failed.'', SSL_free, Close],
              c\<lparr>count_fail := count_fail c + 1\<rparr>)
      else
        let pre = (if starttls cfg \<noteq> STARTTLS_NONE then [Do_starttls] else []) @ [SSL_connect]
        in if SSL_connect_rc ans \<le> 0 then
             Some (pre @ [Diag ''TLS connection failed.'', SSL_free, Close],
                   c\<lparr>count_fail := count_fail c + 1\<rparr>)
           else
             (case shutdown_loop (SSL_shutdown_rc ans) 0 of
                None \<Rightarrow> None
              | Some k \<Rightarrow>
                  if SSL_get_verify_result_rc ans = X509_V_OK then
                    Some (pre @ [SSL_get_verify_result] @ replicate k SSL_shutdown
                            @ [SSL_free, Close],
                          c\<lparr>count_success := count_success c + 1\<rparr>)
                  else
                    Some (pre @ [SSL_get_verify_result,
                              Diag ''Error: peer authentication failed.'']
                            @ replicate k SSL_shutdown @ [SSL_free, Close],
                          c\<lparr>count_fail := count_fail c + 1\<rparr>)))"

text \<open>Lines 359--444: socket, connection, session, and the binding of the name and of the
  TLSA records; then the rest of the iteration.\<close>

definition attempt ::
  "config \<Rightarrow> bool \<Rightarrow> tlsa_rdata list \<Rightarrow> addrinfo \<Rightarrow> answers \<Rightarrow> counters
     \<Rightarrow> (event list \<times> counters) option" where
  "attempt cfg dane tlsa gaip ans c =
     (if socket_rc ans = - 1 then
        Some ([Socket gaip, Diag ''socket''], c\<lparr>count_fail := count_fail c + 1\<rparr>)
      else if connect_rc ans = - 1 then
        Some ([Socket gaip, Connect gaip, Diag ''connect'', Close],
              c\<lparr>count_fail := count_fail c + 1\<rparr>)
      else if \<not> SSL_new_ok ans then
        Some ([Socket gaip, Connect gaip, SSL_new, Diag ''SSL_new() failed.'', Close],
              c\<lparr>count_fail := count_fail c + 1\<rparr>)
      else if dane \<and> SSL_dane_enable_rc ans \<le> 0 then
        Some ([Socket gaip, Connect gaip, SSL_new, SSL_dane_enable (hostname cfg),
               Diag ''SSL_dane_enable() failed.'', SSL_free, Close],
              c\<lparr>count_fail := count_fail c + 1\<rparr>)
      else if \<not> dane \<and> SSL_set1_host_rc ans \<noteq> 1 then
        Some ([Socket gaip, Connect gaip, SSL_new, SSL_set1_host (hostname cfg),
               Diag ''SSL_set1_host() failed.'', SSL_free, Close],
              c\<lparr>count_fail := count_fail c + 1\<rparr>)
      else
        let bound = [Socket gaip, Connect gaip, SSL_new]
              @ (if dane then [SSL_dane_enable (hostname cfg)]
                 else [SSL_set1_host (hostname cfg), SSL_set_tlsext_host_name (hostname cfg)])
              @ [SSL_set_hostflags X509_CHECK_FLAG_NO_PARTIAL_WILDCARDS,
                 SSL_set_connect_state, SSL_set_bio, SSL_set_mode_AUTO_RETRY]
        in (case (if dane then tlsa_loop (SSL_dane_tlsa_add_rc ans) tlsa c else ([], c)) of
              (added, c1) \<Rightarrow>
                (case session_run cfg ans c1 of
                   None \<Rightarrow> None
                 | Some (t, c2) \<Rightarrow> Some (bound @ added @ t, c2))))"

text \<open>Line 345: \<open>for (gaip = addresses; gaip != NULL; gaip = gaip->ai_next)\<close>.\<close>

fun address_loop ::
  "config \<Rightarrow> bool \<Rightarrow> tlsa_rdata list \<Rightarrow> (addrinfo \<times> answers) list \<Rightarrow> counters
     \<Rightarrow> (event list \<times> counters) option" where
  "address_loop cfg dane tlsa [] c = Some ([], c)"
| "address_loop cfg dane tlsa ((gaip, ans) # rest) c =
     (case attempt cfg dane tlsa gaip ans c of
        None \<Rightarrow> None
      | Some (t, c1) \<Rightarrow>
          (case address_loop cfg dane tlsa rest c1 of
             None \<Rightarrow> None
           | Some (t', c2) \<Rightarrow> Some (t @ t', c2)))"

subsection \<open>Lines 526--544: cleanup and the exit status\<close>

definition exit_status :: "counters \<Rightarrow> int" where
  "exit_status c =
     (if count_success c > 0 \<and> count_fail c = 0 then 0
      else if count_success c > 0 \<and> count_fail c \<noteq> 0 then 1
      else 2)"

definition cleanup :: "vars \<Rightarrow> event list \<Rightarrow> counters \<Rightarrow> result" where
  "cleanup v t c =
     \<lparr>status = exit_status c,
      trace = events v @ t @ [Freeaddrinfo, Free_tlsa] @ (if ctx v then [SSL_CTX_free] else []),
      final = c\<rparr>"

text \<open>\<open>main\<close>, from line 247.\<close>

definition main :: "config \<Rightarrow> world \<Rightarrow> result option" where
  "main cfg w =
     (let v = startup cfg w in
      if goto_cleanup v then Some (cleanup v [] counters0)
      else
        (case address_loop cfg (attempt_dane v) (tlsa_rdata_list v) (addresses v) counters0 of
           None \<Rightarrow> None
         | Some (t, c) \<Rightarrow> Some (cleanup v t c)))"

subsection \<open>The name check of a session\<close>

text \<open>
  The check of the peer's certificate name against the requested host name is done inside
  OpenSSL during \<open>SSL_connect\<close>; its code is not among the sources. What the repository's
  specification says about it is modelled here: a session checks the name it was given
  with \<open>SSL_set1_host\<close>, under the flags it was given with \<open>SSL_set_hostflags\<close>, and
  under the ``no partial-label wildcard'' policy a certificate name with a partial
  wildcard label such as \<open>f*.example.com\<close> must never match. Names are compared label by
  label as byte strings; a label without \<open>*\<close> matches itself, and a \<open>*\<close> stands for any
  run of characters of one label.
\<close>

text \<open>Modelled from the spec: the labels of a DNS name, split at the dots (the name check of
  OpenSSL is missing from the sources).\<close>

fun labels :: "string \<Rightarrow> string list" where
  "labels [] = [[]]"
| "labels (c # cs) =
     (if c = CHR ''.'' then [] # labels cs
      else (case labels cs of [] \<Rightarrow> [[c]] | l # ls \<Rightarrow> (c # l) # ls))"

text \<open>Modelled from the spec: a partial wildcard label has a \<open>*\<close> and something else, as
  \<open>f*\<close> in \<open>f*.example.com\<close> (the name check of OpenSSL is missing from the sources).\<close>

definition partial_wildcard_label :: "string \<Rightarrow> bool" where
  "partial_wildcard_label l = (CHR ''*'' \<in> set l \<and> l \<noteq> ''*'')"

text \<open>Modelled from the spec: a name with a partial wildcard label (the name check of
  OpenSSL is missing from the sources).\<close>

definition partial_wildcard_name :: "string \<Rightarrow> bool" where
  "partial_wildcard_name name = list_ex partial_wildcard_label (labels name)"

text \<open>Modelled from the spec: the ``no partial-label wildcard'' policy is enabled when the
  bit \<open>X509_CHECK_FLAG_NO_PARTIAL_WILDCARDS\<close> is set in the flags of the session (the
  header that defines the flags is missing from the sources).\<close>

definition no_partial_wildcards :: "nat \<Rightarrow> bool" where
  "no_partial_wildcards flags = (flags div X509_CHECK_FLAG_NO_PARTIAL_WILDCARDS mod 2 = 1)"

text \<open>Modelled from the spec: a label with a \<open>*\<close> against a label of the host name; the
  \<open>*\<close> stands for any run of characters (the name check of OpenSSL is missing from the
  sources).\<close>

definition wildcard_match :: "string \<Rightarrow> string \<Rightarrow> bool" where
  "wildcard_match pl hl =
     (let lead = takeWhile (\<lambda>c. c \<noteq> CHR ''*'') pl;
          rear = drop 1 (dropWhile (\<lambda>c. c \<noteq> CHR ''*'') pl)
      in length lead + length rear \<le> length hl \<and>
         take (length lead) hl = lead \<and>
         drop (length hl - length rear) hl = rear)"

text \<open>Modelled from the spec: one label of the certificate name against one label of the
  host name; under the policy a partial wildcard label must never match (the name check
  of OpenSSL is missing from the sources).\<close>

definition label_match :: "nat \<Rightarrow> string \<Rightarrow> string \<Rightarrow> bool" where
  "label_match flags pl hl =
     (if CHR ''*'' \<notin> set pl then pl = hl
      else if partial_wildcard_label pl \<and> no_partial_wildcards flags then False
      else wildcard_match pl hl)"

text \<open>Modelled from the spec: the certificate name matches the host name when they have the
  same number of labels and every label matches (the name check of OpenSSL is missing from
  the sources).\<close>

definition host_match :: "nat \<Rightarrow> string \<Rightarrow> string \<Rightarrow> bool" where
  "host_match flags name host = list_all2 (label_match flags) (labels name) (labels host)"

text \<open>The settings of the name check that a session carries: the host name to verify, if
  one was given, and the flags.\<close>

record name_check =
  check_host :: "string option"
  check_flags :: nat

definition name_check0 :: name_check where
  "name_check0 = \<lparr>check_host = None, check_flags = 0\<rparr>"

text \<open>Modelled from the spec: what the calls of the program do to these settings.
  \<open>SSL_new\<close> makes a session without a name and without flags, \<open>SSL_set1_host\<close> sets
  ``standard hostname verification'' for the name, \<open>SSL_set_hostflags\<close> sets the flags
  (the code of these OpenSSL calls is missing from the sources).\<close>

fun configure :: "name_check \<Rightarrow> event \<Rightarrow> name_check" where
  "configure s SSL_new = name_check0"
| "configure s (SSL_set1_host h) = s\<lparr>check_host := Some h\<rparr>"
| "configure s (SSL_set_hostflags f) = s\<lparr>check_flags := f\<rparr>"
| "configure s e = s"

text \<open>Modelled from the spec: a session accepts a certificate name when it verifies no
  host name, or when the name matches the host name under the flags of the session (the
  name check of OpenSSL is missing from the sources).\<close>

definition peer_name_accepted :: "name_check \<Rightarrow> string \<Rightarrow> bool" where
  "peer_name_accepted s name =
     (case check_host s of None \<Rightarrow> True | Some h \<Rightarrow> host_match (check_flags s) name h)"

text \<open>\<open>handshake_checks s es\<close> reads a trace from left to right, starting with the settings
  \<open>s\<close>, and lists the settings in force at each \<open>SSL_connect\<close> of the trace.\<close>

fun handshake_checks :: "name_check \<Rightarrow> event list \<Rightarrow> name_check list" where
  "handshake_checks s [] = []"
| "handshake_checks s (e # es) =
     (if e = SSL_connect then s # handshake_checks s es
      else handshake_checks (configure s e) es)"

text \<open>The settings that lines 401 and 415 give a session.\<close>

definition pkix_check :: "config \<Rightarrow> name_check" where
  "pkix_check cfg =
     \<lparr>check_host = Some (hostname cfg), check_flags = X509_CHECK_FLAG_NO_PARTIAL_WILDCARDS\<rparr>"

subsection \<open>Concrete inputs\<close>

text \<open>Library answers for an address where every step succeeds and the peer verifies.\<close>

definition answers_ok :: answers where
  "answers_ok =
     \<lparr>socket_rc = 3, connect_rc = 0, SSL_new_ok = True, SSL_dane_enable_rc = 1,
      SSL_set1_host_rc = 1, SSL_dane_tlsa_add_rc = (\<lambda>rp. 1), do_starttls_rc = 1,
      SSL_connect_rc = 1, SSL_get_verify_result_rc = 0, SSL_shutdown_rc = (\<lambda>n. 1)\<rparr>"

definition tlsa_ee :: tlsa_rdata where
  "tlsa_ee = \<lparr>usage = 3, selector = 1, mtype = 1, data = [0xAB, 0xCD]\<rparr>"

definition tlsa_ta :: tlsa_rdata where
  "tlsa_ta = \<lparr>usage = 2, selector = 0, mtype = 1, data = [0x12]\<rparr>"

definition addr_v4 :: addrinfo where
  "addr_v4 = \<lparr>ai_family = AF_INET, ai_addr = [192, 0, 2, 1], ai_port = 443\<rparr>"

definition addr_v6 :: addrinfo where
  "addr_v6 = \<lparr>ai_family = AF_INET6, ai_addr = [0x20, 0x01, 0x0D, 0xB8], ai_port = 443\<rparr>"

text \<open>The default mode (\<open>MODE_BOTH\<close>, line 49), no STARTTLS.\<close>

definition cfg_both :: config where
  "cfg_both =
     \<lparr>auth_mode = MODE_BOTH, CAfile = None, starttls = STARTTLS_NONE, service_name = None,
      hostname = ''www.example.com'', port = 443\<rparr>"

text \<open>Two addresses, one authenticated TLSA record, nothing bogus; the peer at the second
  address fails verification (65 is OpenSSL's \<open>X509_V_ERR_DANE_NO_MATCH\<close>).\<close>

definition world_secure :: world where
  "world_secure =
     \<lparr>resolver_ok = True,
      get_addresses_ans =
        [(addr_v4, answers_ok), (addr_v6, answers_ok\<lparr>SSL_get_verify_result_rc := 65\<rparr>)],
      get_tlsa_ans = [tlsa_ee],
      dns_bogus_or_indeterminate = 0, tlsa_authenticated = 1,
      v4_authenticated = 1, v6_authenticated = 1,
      CA_load_rc = 1, SSL_CTX_dane_enable_rc = 1\<rparr>"

definition cfg_dane :: config where
  "cfg_dane = cfg_both\<lparr>auth_mode := MODE_DANE\<rparr>"

definition cfg_pkix :: config where
  "cfg_pkix = cfg_both\<lparr>auth_mode := MODE_PKIX\<rparr>"

text \<open>Answers where \<open>SSL_dane_tlsa_add\<close> fails (negative), where it finds every record
  unusable (0), and where the first \<open>SSL_shutdown\<close> returns 0 and the second returns 1.\<close>

definition answers_add_fails :: answers where
  "answers_add_fails = answers_ok\<lparr>SSL_dane_tlsa_add_rc := (\<lambda>rp. - 1)\<rparr>"

definition answers_unusable :: answers where
  "answers_unusable = answers_ok\<lparr>SSL_dane_tlsa_add_rc := (\<lambda>rp. 0)\<rparr>"

definition answers_retry_shutdown :: answers where
  "answers_retry_shutdown = answers_ok\<lparr>SSL_shutdown_rc := (\<lambda>n. if n = 0 then 0 else 1)\<rparr>"

text \<open>The unfolding rules that evaluate a concrete run.\<close>

lemmas run_defs =
  main_def startup_def dane_decision_def context_setup_def attempt_def session_run_def
  cleanup_def exit_status_def counters0_def X509_V_OK_def shutdown_loop.simps

lemmas input_defs =
  answers_ok_def tlsa_ee_def tlsa_ta_def addr_v4_def addr_v6_def cfg_both_def world_secure_def
  cfg_dane_def cfg_pkix_def answers_add_fails_def answers_unusable_def answers_retry_shutdown_def

lemmas name_defs =
  host_match_def label_match_def wildcard_match_def partial_wildcard_label_def
  partial_wildcard_name_def no_partial_wildcards_def peer_name_accepted_def name_check0_def
  X509_CHECK_FLAG_NO_PARTIAL_WILDCARDS_def

section \<open>Events and counters of the phases\<close>

lemma tlsa_loop_diags:
  "tlsa_loop add rs c = (t, c') \<Longrightarrow>
     set t \<subseteq> {Diag ''SSL_dane_tlsa_add() failed.'', Diag ''Unusable TLSA record'',
              SSL_free, Close} \<union> SSL_dane_tlsa_add ` set rs"
proof (induction rs arbitrary: c t c')
  case Nil
  then show ?case by simp
next
  case (Cons rp rest)
  show ?case
  proof (cases "add rp < 0")
    case True
    obtain t1 c1 where r: "tlsa_loop add rest (c\<lparr>count_fail := count_fail c + 1\<rparr>) = (t1, c1)"
      by (cases "tlsa_loop add rest (c\<lparr>count_fail := count_fail c + 1\<rparr>)")
    from Cons.IH [OF r] Cons.prems True r show ?thesis by auto
  next
    case False
    note nf = this
    show ?thesis
    proof (cases "add rp = 0")
      case True
      obtain t1 c1 where r: "tlsa_loop add rest c = (t1, c1)"
        by (cases "tlsa_loop add rest c")
      from Cons.IH [OF r] Cons.prems True r show ?thesis by auto
    next
      case False
      obtain t1 c1 where r:
        "tlsa_loop add rest (c\<lparr>count_tlsa_usable := count_tlsa_usable c + 1\<rparr>) = (t1, c1)"
        by (cases "tlsa_loop add rest (c\<lparr>count_tlsa_usable := count_tlsa_usable c + 1\<rparr>)")
      from Cons.IH [OF r] Cons.prems False nf r show ?thesis by auto
    qed
  qed
qed

lemma session_run_events:
  "session_run cfg ans c = Some (t, c') \<Longrightarrow>
     set t \<subseteq> {Do_starttls, SSL_connect, SSL_get_verify_result, SSL_shutdown, SSL_free, Close}
       \<union> range Diag"
  by (auto simp: session_run_def Let_def split: if_splits option.splits)

lemma attempt_events:
  assumes "attempt cfg dane tlsa gaip ans c = Some (t, c')"
  shows "set t \<subseteq> range Socket \<union> range Connect \<union> range Diag
           \<union> {SSL_new, SSL_free, Close, SSL_set_hostflags X509_CHECK_FLAG_NO_PARTIAL_WILDCARDS,
              SSL_set_connect_state, SSL_set_bio, SSL_set_mode_AUTO_RETRY, Do_starttls,
              SSL_connect, SSL_get_verify_result, SSL_shutdown}
           \<union> (if dane then insert (SSL_dane_enable (hostname cfg)) (SSL_dane_tlsa_add ` set tlsa)
               else {SSL_set1_host (hostname cfg), SSL_set_tlsext_host_name (hostname cfg)})"
proof (cases dane)
  case True
  obtain added c1 where a: "tlsa_loop (SSL_dane_tlsa_add_rc ans) tlsa c = (added, c1)"
    by (cases "tlsa_loop (SSL_dane_tlsa_add_rc ans) tlsa c")
  show ?thesis
  proof (cases "session_run cfg ans c1")
    case None
    with assms True a show ?thesis
      by (auto simp: attempt_def split: if_splits)
  next
    case (Some p)
    obtain t2 c2 where p: "p = (t2, c2)" by (cases p)
    from tlsa_loop_diags [OF a]
    have "set added \<subseteq> {SSL_free, Close} \<union> range Diag \<union> SSL_dane_tlsa_add ` set tlsa"
      by auto
    with session_run_events [OF Some [unfolded p]] assms True a Some p
    show ?thesis
      by (auto simp: attempt_def split: if_splits)
  qed
next
  case False
  show ?thesis
  proof (cases "session_run cfg ans c")
    case None
    with assms False show ?thesis
      by (auto simp: attempt_def split: if_splits)
  next
    case (Some p)
    obtain t2 c2 where p: "p = (t2, c2)" by (cases p)
    from session_run_events [OF Some [unfolded p]] assms False Some p
    show ?thesis
      by (auto simp: attempt_def split: if_splits)
  qed
qed

lemma address_loop_events:
  "address_loop cfg dane tlsa eps c = Some (t, c') \<Longrightarrow>
     set t \<subseteq> range Socket \<union> range Connect \<union> range Diag
           \<union> {SSL_new, SSL_free, Close, SSL_set_hostflags X509_CHECK_FLAG_NO_PARTIAL_WILDCARDS,
              SSL_set_connect_state, SSL_set_bio, SSL_set_mode_AUTO_RETRY, Do_starttls,
              SSL_connect, SSL_get_verify_result, SSL_shutdown}
           \<union> (if dane then insert (SSL_dane_enable (hostname cfg)) (SSL_dane_tlsa_add ` set tlsa)
               else {SSL_set1_host (hostname cfg), SSL_set_tlsext_host_name (hostname cfg)})"
proof (induction eps arbitrary: c t c')
  case Nil
  then show ?case by simp
next
  case (Cons ep rest)
  obtain gaip ans where ep: "ep = (gaip, ans)" by (cases ep)
  from Cons.prems ep obtain t1 c1 t2 where
    a: "attempt cfg dane tlsa gaip ans c = Some (t1, c1)" and
    l: "address_loop cfg dane tlsa rest c1 = Some (t2, c')" and
    t: "t = t1 @ t2"
    by (auto split: option.splits)
  from attempt_events [OF a] Cons.IH [OF l] t show ?case
    by (simp only: set_append Un_subset_iff)
qed

lemma startup_events:
  "set (events (startup cfg w)) \<subseteq>
     {Get_resolver, Get_addresses, Resolver_deep_free, SSL_CTX_new,
      SSL_CTX_set_default_verify_paths, SSL_CTX_set_verify_NONE,
      SSL_CTX_set_verify_depth 10, SSL_CTX_dane_enable}
     \<union> range SSL_CTX_load_verify_locations \<union> range Diag
     \<union> (if auth_mode cfg \<noteq> MODE_PKIX then {Get_tlsa} else {})"
  by (auto simp: startup_def dane_decision_def context_setup_def Let_def
      split: if_splits option.splits)

lemma startup_attempt_dane:
  "attempt_dane (startup cfg w) =
     (auth_mode cfg \<noteq> MODE_PKIX \<and> tlsa_rdata_list (startup cfg w) \<noteq> [] \<and>
      tlsa_authenticated w \<noteq> 0 \<and> v4_authenticated w \<noteq> 0 \<and> v6_authenticated w \<noteq> 0 \<and>
      dns_bogus_or_indeterminate w = 0)"
  by (cases "auth_mode cfg")
    (auto simp: startup_def dane_decision_def context_setup_def Let_def)

lemma main_events:
  assumes "main cfg w = Some r"
  shows "set (trace r) \<subseteq>
     {Get_resolver, Get_addresses, Resolver_deep_free, SSL_CTX_new,
      SSL_CTX_set_default_verify_paths, SSL_CTX_set_verify_NONE,
      SSL_CTX_set_verify_depth 10, SSL_CTX_dane_enable, Freeaddrinfo, Free_tlsa, SSL_CTX_free}
     \<union> range SSL_CTX_load_verify_locations
     \<union> (if auth_mode cfg \<noteq> MODE_PKIX then {Get_tlsa} else {})
     \<union> range Socket \<union> range Connect \<union> range Diag
     \<union> {SSL_new, SSL_free, Close, SSL_set_hostflags X509_CHECK_FLAG_NO_PARTIAL_WILDCARDS,
        SSL_set_connect_state, SSL_set_bio, SSL_set_mode_AUTO_RETRY, Do_starttls,
        SSL_connect, SSL_get_verify_result, SSL_shutdown}
     \<union> (if attempt_dane (startup cfg w)
         then insert (SSL_dane_enable (hostname cfg))
                (SSL_dane_tlsa_add ` set (tlsa_rdata_list (startup cfg w)))
         else {SSL_set1_host (hostname cfg), SSL_set_tlsext_host_name (hostname cfg)})"
proof (cases "goto_cleanup (startup cfg w)")
  case True
  with assms have "trace r = events (startup cfg w) @ [Freeaddrinfo, Free_tlsa]
      @ (if ctx (startup cfg w) then [SSL_CTX_free] else [])"
    by (auto simp: main_def Let_def cleanup_def)
  with startup_events [of cfg w] show ?thesis
    by (simp only: set_append Un_subset_iff) (auto split: if_splits)
next
  case False
  with assms obtain t c where
    l: "address_loop cfg (attempt_dane (startup cfg w)) (tlsa_rdata_list (startup cfg w))
          (addresses (startup cfg w)) counters0 = Some (t, c)" and
    r: "r = cleanup (startup cfg w) t c"
    by (auto simp: main_def Let_def split: option.splits)
  from r have "trace r = events (startup cfg w) @ t @ [Freeaddrinfo, Free_tlsa]
      @ (if ctx (startup cfg w) then [SSL_CTX_free] else [])"
    by (simp add: cleanup_def)
  with startup_events [of cfg w] address_loop_events [OF l] show ?thesis
    by (simp only: set_append Un_subset_iff) (auto split: if_splits)
qed

lemma tlsa_loop_counts:
  "tlsa_loop add rs c = (t, c') \<Longrightarrow>
     count_success c' = count_success c \<and>
     count_tlsa_usable c' = count_tlsa_usable c + int (length (filter (\<lambda>rp. 0 < add rp) rs)) \<and>
     count_fail c' = count_fail c + int (length (filter (\<lambda>rp. add rp < 0) rs))"
  by (induction rs arbitrary: c t c') (auto split: prod.splits if_splits)

lemma session_run_counts:
  "session_run cfg ans c = Some (t, c') \<Longrightarrow>
     count_tlsa_usable c' = count_tlsa_usable c \<and>
     (count_success c' = count_success c \<and> count_fail c' = count_fail c + 1 \<or>
      count_success c' = count_success c + 1 \<and> count_fail c' = count_fail c)"
  by (auto simp: session_run_def Let_def split: if_splits option.splits)

text \<open>One iteration, seen from the counters: either it stops before the TLSA records are
  added (one failure), or the records are added and the session runs.\<close>

lemma attempt_cases:
  assumes "attempt cfg dane tlsa gaip ans c = Some (t, c')"
  shows "c' = c\<lparr>count_fail := count_fail c + 1\<rparr> \<or>
         (\<exists>added c1 t2. (if dane then tlsa_loop (SSL_dane_tlsa_add_rc ans) tlsa c else ([], c))
              = (added, c1) \<and> session_run cfg ans c1 = Some (t2, c'))"
  using assms by (auto simp: attempt_def split: if_splits prod.splits option.splits)

lemma attempt_counts:
  assumes "attempt cfg dane tlsa gaip ans c = Some (t, c')"
  shows "count_success c' = count_success c \<or> count_success c' = count_success c + 1"
    and "count_fail c \<le> count_fail c'"
    and "count_tlsa_usable c \<le> count_tlsa_usable c'"
    and "count_tlsa_usable c' \<le> count_tlsa_usable c
           + int (length (filter (\<lambda>rp. 0 < SSL_dane_tlsa_add_rc ans rp) tlsa))"
    and "\<not> dane \<Longrightarrow> count_tlsa_usable c' = count_tlsa_usable c"
    and "\<forall>rp\<in>set tlsa. 0 \<le> SSL_dane_tlsa_add_rc ans rp \<Longrightarrow>
           count_success c' + count_fail c' = count_success c + count_fail c + 1"
proof -
  from attempt_cases [OF assms] consider
    (early) "c' = c\<lparr>count_fail := count_fail c + 1\<rparr>"
  | (pkix) t2 where "\<not> dane" "session_run cfg ans c = Some (t2, c')"
  | (dane) added c1 t2 where "dane"
      "tlsa_loop (SSL_dane_tlsa_add_rc ans) tlsa c = (added, c1)"
      "session_run cfg ans c1 = Some (t2, c')"
    by (auto split: if_splits)
  then have "(count_success c' = count_success c \<or> count_success c' = count_success c + 1)
     \<and> count_fail c \<le> count_fail c' \<and> count_tlsa_usable c \<le> count_tlsa_usable c'
     \<and> count_tlsa_usable c' \<le> count_tlsa_usable c
           + int (length (filter (\<lambda>rp. 0 < SSL_dane_tlsa_add_rc ans rp) tlsa))
     \<and> (\<not> dane \<longrightarrow> count_tlsa_usable c' = count_tlsa_usable c)
     \<and> ((\<forall>rp\<in>set tlsa. 0 \<le> SSL_dane_tlsa_add_rc ans rp) \<longrightarrow>
           count_success c' + count_fail c' = count_success c + count_fail c + 1)"
  proof cases
    case early
    then show ?thesis by simp
  next
    case pkix
    from session_run_counts [OF pkix(2)] pkix(1) show ?thesis by auto
  next
    case dane
    have "(\<forall>rp\<in>set tlsa. 0 \<le> SSL_dane_tlsa_add_rc ans rp) \<Longrightarrow>
        filter (\<lambda>rp. SSL_dane_tlsa_add_rc ans rp < 0) tlsa = []"
      by (auto simp: filter_empty_conv)
    with tlsa_loop_counts [OF dane(2)] session_run_counts [OF dane(3)] dane(1)
    show ?thesis by auto
  qed
  then show "count_success c' = count_success c \<or> count_success c' = count_success c + 1"
    and "count_fail c \<le> count_fail c'"
    and "count_tlsa_usable c \<le> count_tlsa_usable c'"
    and "count_tlsa_usable c' \<le> count_tlsa_usable c
           + int (length (filter (\<lambda>rp. 0 < SSL_dane_tlsa_add_rc ans rp) tlsa))"
    and "\<not> dane \<Longrightarrow> count_tlsa_usable c' = count_tlsa_usable c"
    and "\<forall>rp\<in>set tlsa. 0 \<le> SSL_dane_tlsa_add_rc ans rp \<Longrightarrow>
           count_success c' + count_fail c' = count_success c + count_fail c + 1"
    by blast+
qed

lemma address_loop_counts:
  "address_loop cfg dane tlsa eps c = Some (t, c') \<Longrightarrow>
     count_success c \<le> count_success c' \<and> count_fail c \<le> count_fail c' \<and>
     count_tlsa_usable c \<le> count_tlsa_usable c'"
proof (induction eps arbitrary: c t c')
  case Nil
  then show ?case by simp
next
  case (Cons ep rest)
  obtain gaip ans where ep: "ep = (gaip, ans)" by (cases ep)
  from Cons.prems ep obtain t1 c1 t2 where
    a: "attempt cfg dane tlsa gaip ans c = Some (t1, c1)" and
    l: "address_loop cfg dane tlsa rest c1 = Some (t2, c')"
    by (auto split: option.splits)
  from attempt_counts(1-3) [OF a] Cons.IH [OF l] show ?case by linarith
qed

lemma main_loop:
  assumes "main cfg w = Some r" and "\<not> goto_cleanup (startup cfg w)"
  obtains t c where
    "address_loop cfg (attempt_dane (startup cfg w)) (tlsa_rdata_list (startup cfg w))
       (addresses (startup cfg w)) counters0 = Some (t, c)"
    and "r = cleanup (startup cfg w) t c"
  using assms by (auto simp: main_def Let_def split: option.splits)

lemma aborted_run:
  assumes "goto_cleanup (startup cfg w)"
  shows "main cfg w = Some \<lparr>status = 2,
           trace = events (startup cfg w) @ [Freeaddrinfo, Free_tlsa]
             @ (if ctx (startup cfg w) then [SSL_CTX_free] else []),
           final = counters0\<rparr>"
  using assms by (simp add: main_def Let_def cleanup_def exit_status_def counters0_def)

lemma startup_tlsa_rdata_list:
  "tlsa_rdata_list (startup cfg w) =
     (if resolver_ok w \<and> auth_mode cfg \<noteq> MODE_PKIX then get_tlsa_ans w else [])"
  by (auto simp: startup_def dane_decision_def context_setup_def Let_def
      split: if_splits option.splits)

lemma session_run_no_usable:
  "session_run cfg ans c = Some (t, c') \<Longrightarrow>
     Diag ''No usable TLSA records present.'' \<in> set t \<longleftrightarrow>
       auth_mode cfg = MODE_DANE \<and> count_tlsa_usable c = 0"
  by (auto simp: session_run_def Let_def split: if_splits option.splits)

lemma attempt_no_usable:
  assumes "attempt cfg dane tlsa gaip ans c = Some (t, c')"
    and "Diag ''No usable TLSA records present.'' \<in> set t"
  shows "auth_mode cfg = MODE_DANE \<and> count_tlsa_usable c' = 0"
proof -
  let ?d = "Diag ''No usable TLSA records present.''"
  obtain added c1 where a:
    "(if dane then tlsa_loop (SSL_dane_tlsa_add_rc ans) tlsa c else ([], c)) = (added, c1)"
    by (cases "if dane then tlsa_loop (SSL_dane_tlsa_add_rc ans) tlsa c else ([], c)")
  have na: "?d \<notin> set added"
  proof (cases dane)
    case True
    with a have "tlsa_loop (SSL_dane_tlsa_add_rc ans) tlsa c = (added, c1)" by simp
    from tlsa_loop_diags [OF this] show ?thesis by auto
  next
    case False
    with a show ?thesis by simp
  qed
  from assms a na obtain t2 where s: "session_run cfg ans c1 = Some (t2, c')"
    and m: "?d \<in> set t2"
    by (auto simp: attempt_def split: if_splits option.splits)
  from session_run_no_usable [OF s] m session_run_counts [OF s] show ?thesis by simp
qed

lemma address_loop_no_usable:
  "address_loop cfg dane tlsa eps c = Some (t, c') \<Longrightarrow> 0 < count_tlsa_usable c \<Longrightarrow>
     Diag ''No usable TLSA records present.'' \<notin> set t"
proof (induction eps arbitrary: c t c')
  case Nil
  then show ?case by simp
next
  case (Cons ep rest)
  obtain gaip ans where ep: "ep = (gaip, ans)" by (cases ep)
  from Cons.prems(1) ep obtain t1 c1 t2 where
    a: "attempt cfg dane tlsa gaip ans c = Some (t1, c1)" and
    l: "address_loop cfg dane tlsa rest c1 = Some (t2, c')" and
    t: "t = t1 @ t2"
    by (auto split: option.splits)
  from attempt_counts(3) [OF a] Cons.prems(2) have p: "0 < count_tlsa_usable c1" by simp
  from attempt_no_usable [OF a] attempt_counts(3) [OF a] Cons.prems(2)
  have "Diag ''No usable TLSA records present.'' \<notin> set t1" by auto
  with Cons.IH [OF l p] t show ?case by simp
qed

lemma address_loop_append:
  "address_loop cfg dane tlsa (eps1 @ eps2) c = Some (t, c') \<Longrightarrow>
     \<exists>t1 c1 t2. address_loop cfg dane tlsa eps1 c = Some (t1, c1) \<and>
       address_loop cfg dane tlsa eps2 c1 = Some (t2, c') \<and> t = t1 @ t2"
proof (induction eps1 arbitrary: c t)
  case Nil
  then show ?case by simp
next
  case (Cons ep rest)
  obtain gaip ans where ep: "ep = (gaip, ans)" by (cases ep)
  from Cons.prems ep obtain ta ca tb where
    a: "attempt cfg dane tlsa gaip ans c = Some (ta, ca)" and
    l: "address_loop cfg dane tlsa (rest @ eps2) ca = Some (tb, c')" and
    t: "t = ta @ tb"
    by (auto split: option.splits)
  from Cons.IH [OF l] obtain t1 c1 t2 where
    "address_loop cfg dane tlsa rest ca = Some (t1, c1)"
    "address_loop cfg dane tlsa eps2 c1 = Some (t2, c')" "tb = t1 @ t2"
    by blast
  with a t ep show ?case by simp
qed

lemma pkix_attempt_prefix:
  assumes "attempt cfg False tlsa gaip ans c = Some (t, c')" and "SSL_connect \<in> set t"
  shows "\<exists>post. t = [Socket gaip, Connect gaip, SSL_new, SSL_set1_host (hostname cfg),
            SSL_set_tlsext_host_name (hostname cfg),
            SSL_set_hostflags X509_CHECK_FLAG_NO_PARTIAL_WILDCARDS,
            SSL_set_connect_state, SSL_set_bio, SSL_set_mode_AUTO_RETRY]
          @ (if starttls cfg \<noteq> STARTTLS_NONE then [Do_starttls] else [])
          @ SSL_connect # post \<and> SSL_connect \<notin> set post"
  using assms
  by (auto simp: attempt_def session_run_def Let_def split: if_splits option.splits)







lemma attempt_usable_exact:
  assumes "attempt cfg True tlsa gaip ans c = Some (t, c')"
    and "socket_rc ans \<noteq> - 1" "connect_rc ans \<noteq> - 1" "SSL_new_ok ans"
    and "0 < SSL_dane_enable_rc ans"
  shows "count_tlsa_usable c' = count_tlsa_usable c
           + int (length (filter (\<lambda>rp. 0 < SSL_dane_tlsa_add_rc ans rp) tlsa))"
proof -
  obtain added c1 where l: "tlsa_loop (SSL_dane_tlsa_add_rc ans) tlsa c = (added, c1)"
    by (cases "tlsa_loop (SSL_dane_tlsa_add_rc ans) tlsa c")
  with assms obtain t2 where s: "session_run cfg ans c1 = Some (t2, c')"
    by (auto simp: attempt_def split: if_splits option.splits)
  from tlsa_loop_counts [OF l] session_run_counts [OF s] show ?thesis by simp
qed

lemma list_all2_left:
  "list_all2 P xs ys \<Longrightarrow> x \<in> set xs \<Longrightarrow> \<exists>y. P x y"
  by (induction rule: list_all2_induct) auto

lemma partial_wildcard_never_matches:
  assumes "no_partial_wildcards flags" and "partial_wildcard_name name"
  shows "\<not> host_match flags name host"
proof
  assume "host_match flags name host"
  then have m: "list_all2 (label_match flags) (labels name) (labels host)"
    by (simp add: host_match_def)
  from assms(2) obtain l where l: "l \<in> set (labels name)" and p: "partial_wildcard_label l"
    by (auto simp: partial_wildcard_name_def list_ex_iff)
  from list_all2_left [OF m l] obtain hl where "label_match flags l hl" by blast
  with p assms(1) show False
    by (simp add: label_match_def partial_wildcard_label_def)
qed

lemma handshake_checks_skip:
  "SSL_new \<notin> set pre \<Longrightarrow> SSL_connect \<notin> set pre \<Longrightarrow> (\<forall>h. SSL_set1_host h \<notin> set pre) \<Longrightarrow>
   (\<forall>f. SSL_set_hostflags f \<notin> set pre) \<Longrightarrow>
     handshake_checks s (pre @ es) = handshake_checks s es"
proof (induction pre arbitrary: s)
  case Nil
  then show ?case by simp
next
  case (Cons e pre)
  then have "configure s e = s" by (cases e) auto
  with Cons show ?case by auto
qed

lemma handshake_checks_shutdown:
  "handshake_checks s (replicate k SSL_shutdown @ es) = handshake_checks s es"
  by (rule handshake_checks_skip) auto

lemma handshake_checks_session:
  assumes "session_run cfg ans c = Some (t, c')"
    and "\<And>s'. list_all P (handshake_checks s' rest)" and "P good"
  shows "list_all P (handshake_checks good (t @ rest))"
  using assms
  by (auto simp: session_run_def Let_def handshake_checks_shutdown
      split: if_splits option.splits)

lemma handshake_checks_attempt:
  assumes "attempt cfg False tlsa gaip ans c = Some (t, c')"
    and r: "\<And>s'. list_all (\<lambda>x. x = pkix_check cfg) (handshake_checks s' rest)"
  shows "list_all (\<lambda>x. x = pkix_check cfg) (handshake_checks s (t @ rest))"
proof (cases "socket_rc ans = - 1 \<or> connect_rc ans = - 1 \<or> \<not> SSL_new_ok ans
    \<or> SSL_set1_host_rc ans \<noteq> 1")
  case True
  with assms(1) r show ?thesis
    by (auto simp: attempt_def split: if_splits)
next
  case False
  with assms(1) obtain t2 where s: "session_run cfg ans c = Some (t2, c')"
    and t: "t = [Socket gaip, Connect gaip, SSL_new, SSL_set1_host (hostname cfg),
        SSL_set_tlsext_host_name (hostname cfg),
        SSL_set_hostflags X509_CHECK_FLAG_NO_PARTIAL_WILDCARDS,
        SSL_set_connect_state, SSL_set_bio, SSL_set_mode_AUTO_RETRY] @ t2"
    by (auto simp: attempt_def split: if_splits option.splits)
  from handshake_checks_session [OF s r, of "pkix_check cfg"] t show ?thesis
    by (simp add: pkix_check_def name_check0_def)
qed

lemma handshake_checks_loop:
  "address_loop cfg False tlsa eps c = Some (t, c') \<Longrightarrow>
   (\<And>s'. list_all (\<lambda>x. x = pkix_check cfg) (handshake_checks s' rest)) \<Longrightarrow>
   list_all (\<lambda>x. x = pkix_check cfg) (handshake_checks s (t @ rest))"
proof (induction eps arbitrary: c t c' s)
  case Nil
  then show ?case by simp
next
  case (Cons ep eps)
  obtain gaip ans where ep: "ep = (gaip, ans)" by (cases ep)
  from Cons.prems(1) ep obtain t1 c1 t2 where
    a: "attempt cfg False tlsa gaip ans c = Some (t1, c1)" and
    l: "address_loop cfg False tlsa eps c1 = Some (t2, c')" and
    t: "t = t1 @ t2"
    by (auto split: option.splits)
  have "list_all (\<lambda>x. x = pkix_check cfg) (handshake_checks s' (t2 @ rest))" for s'
    by (rule Cons.IH [OF l Cons.prems(2)])
  from handshake_checks_attempt [OF a this] t show ?case by simp
qed

lemma handshake_checks_main:
  assumes "main cfg w = Some r" and "\<not> attempt_dane (startup cfg w)"
  shows "list_all (\<lambda>x. x = pkix_check cfg) (handshake_checks name_check0 (trace r))"
proof -
  let ?v = "startup cfg w"
  let ?fin = "[Freeaddrinfo, Free_tlsa] @ (if ctx ?v then [SSL_CTX_free] else [])"
  have pre: "handshake_checks s (events ?v @ es) = handshake_checks s es" for s es
    using startup_events [of cfg w]
    by (intro handshake_checks_skip) (auto split: if_splits)
  have fin: "list_all (\<lambda>x. x = pkix_check cfg) (handshake_checks s ?fin)" for s by simp
  show ?thesis
  proof (cases "goto_cleanup ?v")
    case True
    from aborted_run [OF True] assms have "trace r = events ?v @ ?fin" by simp
    with pre fin show ?thesis by simp
  next
    case False
    from main_loop [OF assms(1) False] assms(2) obtain t c where
      l: "address_loop cfg False (tlsa_rdata_list ?v) (addresses ?v) counters0 = Some (t, c)"
      and r: "r = cleanup ?v t c"
      by auto
    from handshake_checks_loop [OF l fin]
    have "list_all (\<lambda>x. x = pkix_check cfg) (handshake_checks name_check0 (t @ ?fin))" .
    with pre r show ?thesis by (simp add: cleanup_def)
  qed
qed







section \<open>The claims\<close>

text \<open>
  C1. For every mode and every value of the four DNSSEC flags, \<open>attempt_dane\<close> is set
  exactly when the mode is not PKIX-only, the TLSA list is non-empty, the TLSA answer and
  both address families are authenticated, and nothing is bogus or indeterminate. The
  decision is taken once, before the loop over the addresses, and every address of the run
  is served under it: a run that attempts DANE never binds a session with
  \<open>SSL_set1_host\<close>, and a run that does not never calls \<open>SSL_dane_enable\<close> or
  \<open>SSL_dane_tlsa_add\<close>.
\<close>

theorem attempt_dane_decided_once:
  "(attempt_dane (startup cfg w) \<longleftrightarrow>
      auth_mode cfg \<noteq> MODE_PKIX \<and> tlsa_rdata_list (startup cfg w) \<noteq> [] \<and>
      tlsa_authenticated w \<noteq> 0 \<and> v4_authenticated w \<noteq> 0 \<and> v6_authenticated w \<noteq> 0 \<and>
      dns_bogus_or_indeterminate w = 0)
   \<and> (\<forall>r. main cfg w = Some r \<longrightarrow>
         (if attempt_dane (startup cfg w)
          then (\<forall>h. SSL_set1_host h \<notin> set (trace r))
          else (\<forall>h. SSL_dane_enable h \<notin> set (trace r)) \<and>
               (\<forall>rp. SSL_dane_tlsa_add rp \<notin> set (trace r))))"
proof (intro conjI allI impI)
  show "attempt_dane (startup cfg w) \<longleftrightarrow>
      auth_mode cfg \<noteq> MODE_PKIX \<and> tlsa_rdata_list (startup cfg w) \<noteq> [] \<and>
      tlsa_authenticated w \<noteq> 0 \<and> v4_authenticated w \<noteq> 0 \<and> v6_authenticated w \<noteq> 0 \<and>
      dns_bogus_or_indeterminate w = 0"
    by (rule startup_attempt_dane)
next
  fix r
  assume "main cfg w = Some r"
  from main_events [OF this]
  show "if attempt_dane (startup cfg w)
          then (\<forall>h. SSL_set1_host h \<notin> set (trace r))
          else (\<forall>h. SSL_dane_enable h \<notin> set (trace r)) \<and>
               (\<forall>rp. SSL_dane_tlsa_add rp \<notin> set (trace r))"
    by (auto split: if_splits)
qed

text \<open>
  The default mode, two addresses, one authenticated TLSA record and nothing bogus:
  DANE is attempted, and no session of the run is bound with \<open>SSL_set1_host\<close>.
\<close>

theorem attempt_dane_decided_once_witness:
  "attempt_dane (startup cfg_both world_secure) \<and>
   main cfg_both world_secure \<noteq> None \<and>
   length (addresses (startup cfg_both world_secure)) = 2 \<and>
   (\<forall>h. SSL_set1_host h \<notin> set (trace (the (main cfg_both world_secure))))"
proof -
  have e: "main cfg_both world_secure \<noteq> None"
    by (simp add: run_defs input_defs)
  then obtain r where r: "main cfg_both world_secure = Some r" by blast
  have d: "attempt_dane (startup cfg_both world_secure)"
    by (simp add: run_defs input_defs)
  have n: "length (addresses (startup cfg_both world_secure)) = 2"
    by (simp add: run_defs input_defs)
  from attempt_dane_decided_once [of cfg_both world_secure] r d
  have "\<forall>h. SSL_set1_host h \<notin> set (trace r)" by simp
  with e d n r show ?thesis by simp
qed

text \<open>
  C2. The exit status is decided by \<open>count_success\<close> and \<open>count_fail\<close> alone: both
  counters are never negative, a run with successes and no failure exits with 0, a run
  with successes and failures exits with 1, and a run without success exits with 2. A run
  that leaves by \<open>goto cleanup\<close> before the loop, or that has no address to try, ends
  with both counters at 0 and exits with 2.
\<close>

theorem exit_status_from_counters:
  "(\<forall>r. main cfg w = Some r \<longrightarrow>
      0 \<le> count_success (final r) \<and> 0 \<le> count_fail (final r) \<and>
      (0 < count_success (final r) \<and> count_fail (final r) = 0 \<longrightarrow> status r = 0) \<and>
      (0 < count_success (final r) \<and> 0 < count_fail (final r) \<longrightarrow> status r = 1) \<and>
      (count_success (final r) = 0 \<longrightarrow> status r = 2))
   \<and> (goto_cleanup (startup cfg w) \<or> addresses (startup cfg w) = [] \<longrightarrow>
        (\<exists>r. main cfg w = Some r \<and> final r = counters0 \<and> status r = 2))"
proof (intro conjI allI impI)
  fix r
  assume m: "main cfg w = Some r"
  have "status r = exit_status (final r) \<and> 0 \<le> count_success (final r)
      \<and> 0 \<le> count_fail (final r)"
  proof (cases "goto_cleanup (startup cfg w)")
    case True
    from aborted_run [OF True] m show ?thesis
      by (auto simp: exit_status_def counters0_def)
  next
    case False
    from main_loop [OF m False] obtain t c where
      l: "address_loop cfg (attempt_dane (startup cfg w)) (tlsa_rdata_list (startup cfg w))
            (addresses (startup cfg w)) counters0 = Some (t, c)" and
      r: "r = cleanup (startup cfg w) t c"
      by blast
    from address_loop_counts [OF l] r show ?thesis
      by (simp add: cleanup_def counters0_def)
  qed
  then show "0 \<le> count_success (final r)" and "0 \<le> count_fail (final r)"
    and "0 < count_success (final r) \<and> count_fail (final r) = 0 \<Longrightarrow> status r = 0"
    and "0 < count_success (final r) \<and> 0 < count_fail (final r) \<Longrightarrow> status r = 1"
    and "count_success (final r) = 0 \<Longrightarrow> status r = 2"
    by (auto simp: exit_status_def)
next
  assume "goto_cleanup (startup cfg w) \<or> addresses (startup cfg w) = []"
  then show "\<exists>r. main cfg w = Some r \<and> final r = counters0 \<and> status r = 2"
  proof
    assume "goto_cleanup (startup cfg w)"
    from aborted_run [OF this] show ?thesis by simp
  next
    assume "addresses (startup cfg w) = []"
    then show ?thesis
      by (simp add: main_def Let_def cleanup_def exit_status_def counters0_def)
  qed
qed

text \<open>
  Five runs in the default mode: one address that verifies (status 0); two addresses of
  which the second fails verification (status 1); one address that cannot be connected
  (status 2); no address at all (status 2); no resolver (status 2).
\<close>

theorem exit_status_from_counters_witness:
  "main cfg_both (world_secure\<lparr>get_addresses_ans := [(addr_v4, answers_ok)]\<rparr>) \<noteq> None \<and>
   final (the (main cfg_both (world_secure\<lparr>get_addresses_ans := [(addr_v4, answers_ok)]\<rparr>)))
     = \<lparr>count_success = 1, count_fail = 0, count_tlsa_usable = 1\<rparr> \<and>
   status (the (main cfg_both (world_secure\<lparr>get_addresses_ans := [(addr_v4, answers_ok)]\<rparr>))) = 0 \<and>
   main cfg_both world_secure \<noteq> None \<and>
   final (the (main cfg_both world_secure))
     = \<lparr>count_success = 1, count_fail = 1, count_tlsa_usable = 2\<rparr> \<and>
   status (the (main cfg_both world_secure)) = 1 \<and>
   main cfg_both (world_secure\<lparr>get_addresses_ans := [(addr_v4, answers_ok\<lparr>connect_rc := - 1\<rparr>)]\<rparr>)
     \<noteq> None \<and>
   final (the (main cfg_both
       (world_secure\<lparr>get_addresses_ans := [(addr_v4, answers_ok\<lparr>connect_rc := - 1\<rparr>)]\<rparr>)))
     = \<lparr>count_success = 0, count_fail = 1, count_tlsa_usable = 0\<rparr> \<and>
   status (the (main cfg_both
       (world_secure\<lparr>get_addresses_ans := [(addr_v4, answers_ok\<lparr>connect_rc := - 1\<rparr>)]\<rparr>))) = 2 \<and>
   addresses (startup cfg_both (world_secure\<lparr>get_addresses_ans := []\<rparr>)) = [] \<and>
   status (the (main cfg_both (world_secure\<lparr>get_addresses_ans := []\<rparr>))) = 2 \<and>
   goto_cleanup (startup cfg_both (world_secure\<lparr>resolver_ok := False\<rparr>)) \<and>
   status (the (main cfg_both (world_secure\<lparr>resolver_ok := False\<rparr>))) = 2"
proof -
  let ?w0 = "world_secure\<lparr>get_addresses_ans := [(addr_v4, answers_ok)]\<rparr>"
  let ?w2 = "world_secure\<lparr>get_addresses_ans := [(addr_v4, answers_ok\<lparr>connect_rc := - 1\<rparr>)]\<rparr>"
  let ?w3 = "world_secure\<lparr>get_addresses_ans := []\<rparr>"
  let ?w4 = "world_secure\<lparr>resolver_ok := False\<rparr>"
  have e0: "main cfg_both ?w0 \<noteq> None" and f0: "final (the (main cfg_both ?w0))
     = \<lparr>count_success = 1, count_fail = 0, count_tlsa_usable = 1\<rparr>"
    by (simp_all add: run_defs input_defs)
  have e1: "main cfg_both world_secure \<noteq> None" and f1: "final (the (main cfg_both world_secure))
     = \<lparr>count_success = 1, count_fail = 1, count_tlsa_usable = 2\<rparr>"
    by (simp_all add: run_defs input_defs)
  have e2: "main cfg_both ?w2 \<noteq> None" and f2: "final (the (main cfg_both ?w2))
     = \<lparr>count_success = 0, count_fail = 1, count_tlsa_usable = 0\<rparr>"
    by (simp_all add: run_defs input_defs)
  have a3: "addresses (startup cfg_both ?w3) = []"
    by (simp add: run_defs input_defs)
  have g4: "goto_cleanup (startup cfg_both ?w4)"
    by (simp add: run_defs input_defs)
  from e0 f0 exit_status_from_counters [of cfg_both ?w0]
  have s0: "status (the (main cfg_both ?w0)) = 0" by auto
  from e1 f1 exit_status_from_counters [of cfg_both world_secure]
  have s1: "status (the (main cfg_both world_secure)) = 1" by auto
  from e2 f2 exit_status_from_counters [of cfg_both ?w2]
  have s2: "status (the (main cfg_both ?w2)) = 2" by auto
  from a3 exit_status_from_counters [of cfg_both ?w3]
  have s3: "status (the (main cfg_both ?w3)) = 2" by auto
  from g4 exit_status_from_counters [of cfg_both ?w4]
  have s4: "status (the (main cfg_both ?w4)) = 2" by auto
  from e0 f0 s0 e1 f1 s1 e2 f2 s2 a3 s3 g4 s4 show ?thesis by blast
qed

text \<open>
  C3. A failing binding step is meant to end the attempt on this address with one count
  of failure. For \<open>SSL_dane_enable\<close> and \<open>SSL_set1_host\<close> the source does so. For
  \<open>SSL_dane_tlsa_add\<close> it does not: the \<open>continue\<close> of line 435 continues the loop
  over the TLSA records, so the iteration goes on with the freed session. In DANE-only
  mode, with one address and one record whose addition fails, the address is counted as
  failed twice and \<open>SSL_free\<close> and \<open>close\<close> are called twice.
\<close>

theorem tlsa_add_failure_counted_twice:
  "main cfg_dane (world_secure\<lparr>get_addresses_ans := [(addr_v4, answers_add_fails)]\<rparr>) =
     Some \<lparr>status = 2,
       trace = [Get_resolver, Get_addresses, Get_tlsa, Resolver_deep_free, SSL_CTX_new,
         SSL_CTX_set_default_verify_paths, SSL_CTX_set_verify_NONE,
         SSL_CTX_set_verify_depth 10, SSL_CTX_dane_enable,
         Socket addr_v4, Connect addr_v4, SSL_new, SSL_dane_enable ''www.example.com'',
         SSL_set_hostflags 4, SSL_set_connect_state, SSL_set_bio, SSL_set_mode_AUTO_RETRY,
         SSL_dane_tlsa_add tlsa_ee, Diag ''SSL_dane_tlsa_add() failed.'', SSL_free, Close,
         Diag ''No usable TLSA records present.'', SSL_free, Close,
         Freeaddrinfo, Free_tlsa, SSL_CTX_free],
       final = \<lparr>count_success = 0, count_fail = 2, count_tlsa_usable = 0\<rparr>\<rparr>"
  by (simp add: run_defs input_defs X509_CHECK_FLAG_NO_PARTIAL_WILDCARDS_def)

text \<open>
  C4. When \<open>dns_bogus_or_indeterminate\<close> is set, the run ends with exit status 2 in every
  mode, PKIX-only included. No socket is opened, no connection and no session is made; the
  only calls after the DNS phase are \<open>freeaddrinfo\<close> and \<open>free_tlsa\<close> (no TLS context
  exists yet at that point).
\<close>

theorem bogus_dns_aborts_run:
  "dns_bogus_or_indeterminate w \<noteq> 0 \<Longrightarrow>
     (\<exists>r. main cfg w = Some r \<and> status r = 2 \<and> final r = counters0 \<and>
        trace r =
          (if resolver_ok w
           then [Get_resolver, Get_addresses]
             @ (if auth_mode cfg \<noteq> MODE_PKIX then [Get_tlsa] else []) @ [Resolver_deep_free]
           else [Get_resolver])
          @ [Freeaddrinfo, Free_tlsa] \<and>
        (\<forall>a. Socket a \<notin> set (trace r)) \<and> (\<forall>a. Connect a \<notin> set (trace r)) \<and>
        SSL_new \<notin> set (trace r) \<and> SSL_connect \<notin> set (trace r))"
proof -
  assume b: "dns_bogus_or_indeterminate w \<noteq> 0"
  then have g: "goto_cleanup (startup cfg w)" and c: "\<not> ctx (startup cfg w)"
    and e: "events (startup cfg w) =
          (if resolver_ok w
           then [Get_resolver, Get_addresses]
             @ (if auth_mode cfg \<noteq> MODE_PKIX then [Get_tlsa] else []) @ [Resolver_deep_free]
           else [Get_resolver])"
    by (simp_all add: startup_def Let_def)
  from aborted_run [OF g] c e show ?thesis by simp
qed

text \<open>
  PKIX-only mode with the flag set: two addresses are resolved and none is contacted.
\<close>

theorem bogus_dns_aborts_run_witness:
  "dns_bogus_or_indeterminate (world_secure\<lparr>dns_bogus_or_indeterminate := 1\<rparr>) \<noteq> 0 \<and>
   main (cfg_both\<lparr>auth_mode := MODE_PKIX\<rparr>) (world_secure\<lparr>dns_bogus_or_indeterminate := 1\<rparr>)
     = Some \<lparr>status = 2,
         trace = [Get_resolver, Get_addresses, Resolver_deep_free, Freeaddrinfo, Free_tlsa],
         final = counters0\<rparr>"
proof -
  have b: "dns_bogus_or_indeterminate (world_secure\<lparr>dns_bogus_or_indeterminate := 1\<rparr>) \<noteq> 0"
    by simp
  from bogus_dns_aborts_run [OF b, of "cfg_both\<lparr>auth_mode := MODE_PKIX\<rparr>"] b
  show ?thesis by (auto simp: world_secure_def)
qed

text \<open>
  C5. In DANE-only mode, an empty TLSA answer ends the run with exit status 2, and no
  address of the resolved list is contacted: the trace has no \<open>socket\<close>, \<open>connect\<close>,
  \<open>SSL_new\<close> or \<open>SSL_connect\<close>.
\<close>

theorem dane_only_without_tlsa_aborts:
  "auth_mode cfg = MODE_DANE \<Longrightarrow> get_tlsa_ans w = [] \<Longrightarrow>
     (\<exists>r. main cfg w = Some r \<and> status r = 2 \<and> final r = counters0 \<and>
        (\<forall>a. Socket a \<notin> set (trace r)) \<and> (\<forall>a. Connect a \<notin> set (trace r)) \<and>
        SSL_new \<notin> set (trace r) \<and> SSL_connect \<notin> set (trace r) \<and>
        (\<exists>t. trace r = t @ [Freeaddrinfo, Free_tlsa]))"
proof -
  assume m: "auth_mode cfg = MODE_DANE" and t: "get_tlsa_ans w = []"
  then have g: "goto_cleanup (startup cfg w)" and c: "\<not> ctx (startup cfg w)"
    by (simp_all add: startup_def dane_decision_def Let_def)
  have "\<forall>a. Socket a \<notin> set (events (startup cfg w))"
    "\<forall>a. Connect a \<notin> set (events (startup cfg w))"
    "SSL_new \<notin> set (events (startup cfg w))" "SSL_connect \<notin> set (events (startup cfg w))"
    using startup_events [of cfg w] by (auto split: if_splits)
  with aborted_run [OF g] c show ?thesis by simp
qed

text \<open>
  DANE-only mode, two resolved addresses, an empty TLSA answer.
\<close>

theorem dane_only_without_tlsa_aborts_witness:
  "auth_mode (cfg_both\<lparr>auth_mode := MODE_DANE\<rparr>) = MODE_DANE \<and>
   get_tlsa_ans (world_secure\<lparr>get_tlsa_ans := []\<rparr>) = [] \<and>
   length (get_addresses_ans (world_secure\<lparr>get_tlsa_ans := []\<rparr>)) = 2 \<and>
   main (cfg_both\<lparr>auth_mode := MODE_DANE\<rparr>) (world_secure\<lparr>get_tlsa_ans := []\<rparr>)
     = Some \<lparr>status = 2,
         trace = [Get_resolver, Get_addresses, Get_tlsa, Resolver_deep_free,
                  Freeaddrinfo, Free_tlsa],
         final = counters0\<rparr>"
proof -
  have m: "auth_mode (cfg_both\<lparr>auth_mode := MODE_DANE\<rparr>) = MODE_DANE"
    and t: "get_tlsa_ans (world_secure\<lparr>get_tlsa_ans := []\<rparr>) = []"
    and n: "length (get_addresses_ans (world_secure\<lparr>get_tlsa_ans := []\<rparr>)) = 2"
    by (simp_all add: world_secure_def)
  have "main (cfg_both\<lparr>auth_mode := MODE_DANE\<rparr>) (world_secure\<lparr>get_tlsa_ans := []\<rparr>)
     = Some \<lparr>status = 2,
         trace = [Get_resolver, Get_addresses, Get_tlsa, Resolver_deep_free,
                  Freeaddrinfo, Free_tlsa],
         final = counters0\<rparr>"
    using dane_only_without_tlsa_aborts [OF m t]
    by (simp add: run_defs input_defs)
  with m t n show ?thesis by blast
qed



text \<open>
  C7, as the source has it. The claim that each counter changes at most once in an
  iteration fails for \<open>count_tlsa_usable\<close>: it is incremented once for every usable
  record (line 442). One iteration with two usable records takes it from 0 to 2.
\<close>

theorem usable_count_rises_twice:
  "attempt cfg_both True [tlsa_ee, tlsa_ta] addr_v4 answers_ok counters0 =
     Some ([Socket addr_v4, Connect addr_v4, SSL_new, SSL_dane_enable ''www.example.com'',
            SSL_set_hostflags 4, SSL_set_connect_state, SSL_set_bio, SSL_set_mode_AUTO_RETRY,
            SSL_dane_tlsa_add tlsa_ee, SSL_dane_tlsa_add tlsa_ta,
            SSL_connect, SSL_get_verify_result, SSL_shutdown, SSL_free, Close],
           \<lparr>count_success = 1, count_fail = 0, count_tlsa_usable = 2\<rparr>)"
  by (simp add: run_defs input_defs X509_CHECK_FLAG_NO_PARTIAL_WILDCARDS_def)

text \<open>
  C7, amended. In one iteration \<open>count_success\<close> is incremented once or not at all;
  \<open>count_tlsa_usable\<close> grows by the number of records the session takes as usable when
  the records are added, and is unchanged otherwise (always when DANE is not attempted);
  when no addition of a record fails with a negative result, exactly one of
  \<open>count_success\<close> and \<open>count_fail\<close> is incremented, once. \<open>count_tlsa_usable\<close> is read
  in the iterations, by the check of line 446, and not by the exit status, which is
  computed from \<open>count_success\<close> and \<open>count_fail\<close> after the loop.
\<close>

theorem counters_per_iteration:
  "(attempt cfg dane tlsa gaip ans c = Some (t, c') \<longrightarrow>
      (count_success c' = count_success c \<or> count_success c' = count_success c + 1) \<and>
      count_tlsa_usable c \<le> count_tlsa_usable c' \<and>
      count_tlsa_usable c' \<le> count_tlsa_usable c
        + int (length (filter (\<lambda>rp. 0 < SSL_dane_tlsa_add_rc ans rp) tlsa)) \<and>
      (\<not> dane \<longrightarrow> count_tlsa_usable c' = count_tlsa_usable c) \<and>
      (dane \<and> socket_rc ans \<noteq> - 1 \<and> connect_rc ans \<noteq> - 1 \<and> SSL_new_ok ans \<and>
         0 < SSL_dane_enable_rc ans \<longrightarrow>
         count_tlsa_usable c' = count_tlsa_usable c
           + int (length (filter (\<lambda>rp. 0 < SSL_dane_tlsa_add_rc ans rp) tlsa))) \<and>
      ((\<forall>rp\<in>set tlsa. 0 \<le> SSL_dane_tlsa_add_rc ans rp) \<longrightarrow>
         count_success c' + count_fail c' = count_success c + count_fail c + 1) \<and>
      (Diag ''No usable TLSA records present.'' \<in> set t \<longrightarrow>
         auth_mode cfg = MODE_DANE \<and> count_tlsa_usable c' = 0))
   \<and> exit_status (c\<lparr>count_tlsa_usable := n\<rparr>) = exit_status c
   \<and> (main cfg w = Some r \<longrightarrow> status r = exit_status (final r))"
proof (intro conjI impI)
  show "exit_status (c\<lparr>count_tlsa_usable := n\<rparr>) = exit_status c"
    by (simp add: exit_status_def)
next
  assume "main cfg w = Some r"
  then show "status r = exit_status (final r)"
    by (auto simp: main_def Let_def cleanup_def split: if_splits option.splits)
next
  assume a: "attempt cfg dane tlsa gaip ans c = Some (t, c')"
  from attempt_counts(1) [OF a]
  show "count_success c' = count_success c \<or> count_success c' = count_success c + 1" .
  from attempt_counts(3) [OF a] show "count_tlsa_usable c \<le> count_tlsa_usable c'" .
  from attempt_counts(4) [OF a] show "count_tlsa_usable c' \<le> count_tlsa_usable c
        + int (length (filter (\<lambda>rp. 0 < SSL_dane_tlsa_add_rc ans rp) tlsa))" .
  {
    assume "\<not> dane"
    from attempt_counts(5) [OF a this] show "count_tlsa_usable c' = count_tlsa_usable c" .
  }
  {
    assume "dane \<and> socket_rc ans \<noteq> - 1 \<and> connect_rc ans \<noteq> - 1 \<and> SSL_new_ok ans \<and>
         0 < SSL_dane_enable_rc ans"
    with a attempt_usable_exact [of cfg tlsa gaip ans c t c']
    show "count_tlsa_usable c' = count_tlsa_usable c
           + int (length (filter (\<lambda>rp. 0 < SSL_dane_tlsa_add_rc ans rp) tlsa))"
      by simp
  }
  {
    assume "\<forall>rp\<in>set tlsa. 0 \<le> SSL_dane_tlsa_add_rc ans rp"
    from attempt_counts(6) [OF a this]
    show "count_success c' + count_fail c' = count_success c + count_fail c + 1" .
  }
  {
    assume "Diag ''No usable TLSA records present.'' \<in> set t"
    from attempt_no_usable [OF a this]
    show "auth_mode cfg = MODE_DANE" and "count_tlsa_usable c' = 0" by simp_all
  }
qed

text \<open>
  An iteration with two usable records; an iteration without DANE whose peer fails
  verification; an iteration in DANE-only mode whose only record is unusable; and the exit
  status of a run with one success and one failure.
\<close>

theorem counters_per_iteration_witness:
  "(\<exists>t. attempt cfg_both True [tlsa_ee, tlsa_ta] addr_v4 answers_ok counters0 =
      Some (t, \<lparr>count_success = 1, count_fail = 0, count_tlsa_usable = 2\<rparr>)) \<and>
   0 \<le> SSL_dane_tlsa_add_rc answers_ok tlsa_ee \<and> 0 \<le> SSL_dane_tlsa_add_rc answers_ok tlsa_ta \<and>
   length (filter (\<lambda>rp. 0 < SSL_dane_tlsa_add_rc answers_ok rp) [tlsa_ee, tlsa_ta]) = 2 \<and>
   (\<exists>t. attempt cfg_pkix False [] addr_v4 (answers_ok\<lparr>SSL_get_verify_result_rc := 65\<rparr>)
          counters0 =
      Some (t, \<lparr>count_success = 0, count_fail = 1, count_tlsa_usable = 0\<rparr>)) \<and>
   (\<exists>t. attempt cfg_dane True [tlsa_ee] addr_v6 answers_unusable counters0 =
      Some (t, \<lparr>count_success = 0, count_fail = 1, count_tlsa_usable = 0\<rparr>) \<and>
      Diag ''No usable TLSA records present.'' \<in> set t) \<and>
   main cfg_both world_secure \<noteq> None \<and>
   status (the (main cfg_both world_secure)) = exit_status (final (the (main cfg_both world_secure)))"
proof -
  have e: "\<exists>t c'. attempt cfg_both True [tlsa_ee, tlsa_ta] addr_v4 answers_ok counters0
      = Some (t, c')"
    by (simp add: run_defs input_defs)
  then obtain t c' where
    a: "attempt cfg_both True [tlsa_ee, tlsa_ta] addr_v4 answers_ok counters0 = Some (t, c')"
    by blast
  have ok: "\<forall>rp\<in>set [tlsa_ee, tlsa_ta]. 0 \<le> SSL_dane_tlsa_add_rc answers_ok rp"
    and n: "length (filter (\<lambda>rp. 0 < SSL_dane_tlsa_add_rc answers_ok rp) [tlsa_ee, tlsa_ta]) = 2"
    and b: "socket_rc answers_ok \<noteq> - 1 \<and> connect_rc answers_ok \<noteq> - 1 \<and> SSL_new_ok answers_ok
      \<and> 0 < SSL_dane_enable_rc answers_ok"
    by (simp_all add: input_defs)
  from counters_per_iteration [THEN conjunct1, rule_format, OF a] ok n b
  have u: "count_tlsa_usable c' = 2" and sf: "count_success c' + count_fail c' = 1"
    by (simp_all add: counters0_def)
  have "count_success c' = 1 \<and> count_fail c' = 0"
    using a by (auto simp: run_defs input_defs)
  with u have "c' = \<lparr>count_success = 1, count_fail = 0, count_tlsa_usable = 2\<rparr>"
    by (cases c') simp
  with a have p1: "\<exists>t. attempt cfg_both True [tlsa_ee, tlsa_ta] addr_v4 answers_ok counters0 =
      Some (t, \<lparr>count_success = 1, count_fail = 0, count_tlsa_usable = 2\<rparr>)"
    by blast
  have p2: "\<exists>t. attempt cfg_pkix False [] addr_v4 (answers_ok\<lparr>SSL_get_verify_result_rc := 65\<rparr>)
          counters0 =
      Some (t, \<lparr>count_success = 0, count_fail = 1, count_tlsa_usable = 0\<rparr>)"
    by (simp add: run_defs input_defs)
  have p3: "\<exists>t. attempt cfg_dane True [tlsa_ee] addr_v6 answers_unusable counters0 =
      Some (t, \<lparr>count_success = 0, count_fail = 1, count_tlsa_usable = 0\<rparr>) \<and>
      Diag ''No usable TLSA records present.'' \<in> set t"
    by (simp add: run_defs input_defs)
  have m: "main cfg_both world_secure \<noteq> None"
    by (simp add: run_defs input_defs)
  then obtain r where r: "main cfg_both world_secure = Some r" by blast
  from counters_per_iteration [THEN conjunct2, THEN conjunct2, rule_format, OF r] r
  have s: "status (the (main cfg_both world_secure))
      = exit_status (final (the (main cfg_both world_secure)))"
    by simp
  from ok have ok': "0 \<le> SSL_dane_tlsa_add_rc answers_ok tlsa_ee
      \<and> 0 \<le> SSL_dane_tlsa_add_rc answers_ok tlsa_ta"
    by simp
  from p1 ok' n p2 p3 m s show ?thesis by blast
qed

text \<open>
  C8. When DANE is not attempted, every handshake of the run is started on a session that
  verifies the requested host name with the flag
  \<open>X509_CHECK_FLAG_NO_PARTIAL_WILDCARDS\<close> set, so that no certificate name with a partial
  wildcard label is accepted by that session, whatever the host name: under the policy
  \<open>f*.example.com\<close> does not match \<open>foo.example.com\<close>. The last part gives the calls of
  one iteration up to the handshake.
\<close>

theorem pkix_sessions_forbid_partial_wildcards:
  "(main cfg w = Some r \<and> \<not> attempt_dane (startup cfg w) \<and>
      s \<in> set (handshake_checks name_check0 (trace r)) \<longrightarrow>
      check_host s = Some (hostname cfg) \<and> no_partial_wildcards (check_flags s) \<and>
      (partial_wildcard_name name \<longrightarrow> \<not> peer_name_accepted s name))
   \<and> (no_partial_wildcards flags \<and> partial_wildcard_name name \<longrightarrow> \<not> host_match flags name host)
   \<and> (attempt cfg False tlsa gaip ans c = Some (t, c') \<and> SSL_connect \<in> set t \<longrightarrow>
        (\<exists>post. t = [Socket gaip, Connect gaip, SSL_new, SSL_set1_host (hostname cfg),
            SSL_set_tlsext_host_name (hostname cfg),
            SSL_set_hostflags X509_CHECK_FLAG_NO_PARTIAL_WILDCARDS,
            SSL_set_connect_state, SSL_set_bio, SSL_set_mode_AUTO_RETRY]
          @ (if starttls cfg \<noteq> STARTTLS_NONE then [Do_starttls] else [])
          @ SSL_connect # post \<and> SSL_connect \<notin> set post))"
proof (intro conjI impI)
  assume a: "main cfg w = Some r \<and> \<not> attempt_dane (startup cfg w) \<and>
      s \<in> set (handshake_checks name_check0 (trace r))"
  with handshake_checks_main [of cfg w r] have s: "s = pkix_check cfg"
    by (auto simp: list_all_iff)
  then show "check_host s = Some (hostname cfg)"
    by (simp add: pkix_check_def)
  from s show f: "no_partial_wildcards (check_flags s)"
    by (simp add: pkix_check_def no_partial_wildcards_def
        X509_CHECK_FLAG_NO_PARTIAL_WILDCARDS_def)
  assume "partial_wildcard_name name"
  from partial_wildcard_never_matches [OF f this] s
  show "\<not> peer_name_accepted s name"
    by (simp add: peer_name_accepted_def pkix_check_def)
next
  assume "no_partial_wildcards flags \<and> partial_wildcard_name name"
  then show "\<not> host_match flags name host"
    using partial_wildcard_never_matches by blast
next
  assume "attempt cfg False tlsa gaip ans c = Some (t, c') \<and> SSL_connect \<in> set t"
  then show "\<exists>post. t = [Socket gaip, Connect gaip, SSL_new, SSL_set1_host (hostname cfg),
            SSL_set_tlsext_host_name (hostname cfg),
            SSL_set_hostflags X509_CHECK_FLAG_NO_PARTIAL_WILDCARDS,
            SSL_set_connect_state, SSL_set_bio, SSL_set_mode_AUTO_RETRY]
          @ (if starttls cfg \<noteq> STARTTLS_NONE then [Do_starttls] else [])
          @ SSL_connect # post \<and> SSL_connect \<notin> set post"
    using pkix_attempt_prefix by blast
qed

text \<open>
  A PKIX-only run over two addresses: both handshakes are made under the host name and the
  flag, and such a session refuses \<open>w*.example.com\<close> for \<open>www.example.com\<close>, which a
  session without the flag accepts; full wildcard labels and plain names still match.
\<close>

theorem pkix_sessions_forbid_partial_wildcards_witness:
  "main cfg_pkix world_secure \<noteq> None \<and> \<not> attempt_dane (startup cfg_pkix world_secure) \<and>
   handshake_checks name_check0 (trace (the (main cfg_pkix world_secure))) =
     [\<lparr>check_host = Some ''www.example.com'', check_flags = 4\<rparr>,
      \<lparr>check_host = Some ''www.example.com'', check_flags = 4\<rparr>] \<and>
   partial_wildcard_name ''w*.example.com'' \<and>
   \<not> peer_name_accepted \<lparr>check_host = Some ''www.example.com'', check_flags = 4\<rparr>
       ''w*.example.com'' \<and>
   peer_name_accepted \<lparr>check_host = Some ''www.example.com'', check_flags = 0\<rparr>
       ''w*.example.com'' \<and>
   peer_name_accepted \<lparr>check_host = Some ''www.example.com'', check_flags = 4\<rparr>
       ''*.example.com'' \<and>
   peer_name_accepted \<lparr>check_host = Some ''www.example.com'', check_flags = 4\<rparr>
       ''www.example.com'' \<and>
   no_partial_wildcards 4 \<and> partial_wildcard_name ''f*.example.com'' \<and>
   \<not> host_match 4 ''f*.example.com'' ''foo.example.com'' \<and>
   host_match 0 ''f*.example.com'' ''foo.example.com'' \<and>
   (\<exists>post c'. attempt cfg_pkix False [] addr_v4 answers_ok counters0 =
      Some ([Socket addr_v4, Connect addr_v4, SSL_new, SSL_set1_host ''www.example.com'',
             SSL_set_tlsext_host_name ''www.example.com'', SSL_set_hostflags 4,
             SSL_set_connect_state, SSL_set_bio, SSL_set_mode_AUTO_RETRY, SSL_connect] @ post,
            c'))"
proof -
  let ?s = "\<lparr>check_host = Some ''www.example.com'', check_flags = 4\<rparr>"
  have e: "main cfg_pkix world_secure \<noteq> None"
    by (simp add: run_defs input_defs)
  then obtain r where r: "main cfg_pkix world_secure = Some r" by blast
  have d: "\<not> attempt_dane (startup cfg_pkix world_secure)"
    by (simp add: run_defs input_defs)
  have h: "handshake_checks name_check0 (trace (the (main cfg_pkix world_secure))) = [?s, ?s]"
    by (simp add: run_defs input_defs name_check0_def X509_CHECK_FLAG_NO_PARTIAL_WILDCARDS_def)
  with r have m: "?s \<in> set (handshake_checks name_check0 (trace r))" by simp
  have p: "partial_wildcard_name ''w*.example.com''"
    and p': "partial_wildcard_name ''f*.example.com''"
    and n: "no_partial_wildcards 4"
    by (simp_all add: name_defs)
  from pkix_sessions_forbid_partial_wildcards [THEN conjunct1, rule_format,
      of cfg_pkix world_secure r ?s "''w*.example.com''"] r d m p
  have x1: "\<not> peer_name_accepted ?s ''w*.example.com''" by blast
  from pkix_sessions_forbid_partial_wildcards [THEN conjunct2, THEN conjunct1, rule_format,
      of 4 "''f*.example.com''" "''foo.example.com''"] n p'
  have x2: "\<not> host_match 4 ''f*.example.com'' ''foo.example.com''" by blast
  have y: "peer_name_accepted \<lparr>check_host = Some ''www.example.com'', check_flags = 0\<rparr>
       ''w*.example.com''"
    "peer_name_accepted ?s ''*.example.com''"
    "peer_name_accepted ?s ''www.example.com''"
    "host_match 0 ''f*.example.com'' ''foo.example.com''"
    by (simp_all add: name_defs)
  have a: "\<exists>post c'. attempt cfg_pkix False [] addr_v4 answers_ok counters0 =
      Some ([Socket addr_v4, Connect addr_v4, SSL_new, SSL_set1_host ''www.example.com'',
             SSL_set_tlsext_host_name ''www.example.com'', SSL_set_hostflags 4,
             SSL_set_connect_state, SSL_set_bio, SSL_set_mode_AUTO_RETRY, SSL_connect] @ post,
            c')"
    by (simp add: run_defs input_defs X509_CHECK_FLAG_NO_PARTIAL_WILDCARDS_def)
  from e d h p x1 y n p' x2 a show ?thesis by blast
qed

text \<open>
  C9. \<open>count_tlsa_usable\<close> is never reset. Split the addresses of a run at any point into
  the earlier and the later ones: the count only grows over both parts, and when it is
  positive after the earlier addresses, no later address prints ``No usable TLSA
  records present''. Within one iteration, that abort is taken only in DANE-only mode and
  only when the count over all addresses so far, this one included, is 0.
\<close>

theorem usable_count_never_reset:
  "(address_loop cfg dane tlsa (earlier @ later) c = Some (t, c') \<longrightarrow>
      (\<exists>t1 c1 t2.
         address_loop cfg dane tlsa earlier c = Some (t1, c1) \<and>
         address_loop cfg dane tlsa later c1 = Some (t2, c') \<and> t = t1 @ t2 \<and>
         count_tlsa_usable c \<le> count_tlsa_usable c1 \<and>
         count_tlsa_usable c1 \<le> count_tlsa_usable c' \<and>
         (0 < count_tlsa_usable c1 \<longrightarrow>
            Diag ''No usable TLSA records present.'' \<notin> set t2)))
   \<and> (attempt cfg dane tlsa gaip ans a = Some (ta, a') \<longrightarrow>
        count_tlsa_usable a \<le> count_tlsa_usable a' \<and>
        (Diag ''No usable TLSA records present.'' \<in> set ta \<longrightarrow>
           auth_mode cfg = MODE_DANE \<and> count_tlsa_usable a' = 0))"
proof (intro conjI impI)
  assume "address_loop cfg dane tlsa (earlier @ later) c = Some (t, c')"
  from address_loop_append [OF this] obtain t1 c1 t2 where
    e: "address_loop cfg dane tlsa earlier c = Some (t1, c1)" and
    l: "address_loop cfg dane tlsa later c1 = Some (t2, c')" and t: "t = t1 @ t2"
    by blast
  from address_loop_counts [OF e] address_loop_counts [OF l] address_loop_no_usable [OF l] e l t
  show "\<exists>t1 c1 t2.
         address_loop cfg dane tlsa earlier c = Some (t1, c1) \<and>
         address_loop cfg dane tlsa later c1 = Some (t2, c') \<and> t = t1 @ t2 \<and>
         count_tlsa_usable c \<le> count_tlsa_usable c1 \<and>
         count_tlsa_usable c1 \<le> count_tlsa_usable c' \<and>
         (0 < count_tlsa_usable c1 \<longrightarrow>
            Diag ''No usable TLSA records present.'' \<notin> set t2)"
    by blast
next
  assume "attempt cfg dane tlsa gaip ans a = Some (ta, a')"
  from attempt_counts(3) [OF this] show "count_tlsa_usable a \<le> count_tlsa_usable a'" .
next
  assume "attempt cfg dane tlsa gaip ans a = Some (ta, a')"
    and "Diag ''No usable TLSA records present.'' \<in> set ta"
  from attempt_no_usable [OF this] show "auth_mode cfg = MODE_DANE" and "count_tlsa_usable a' = 0"
    by simp_all
qed

text \<open>
  DANE-only mode, one TLSA record. The first address takes the record as usable, the second
  finds it unusable and still goes on to the handshake, since the count is 1 by then.
  Served first, with the count at 0, the same address is aborted.
\<close>

theorem usable_count_never_reset_witness:
  "address_loop cfg_dane True [tlsa_ee] [(addr_v4, answers_ok)] counters0 \<noteq> None \<and>
   snd (the (address_loop cfg_dane True [tlsa_ee] [(addr_v4, answers_ok)] counters0))
     = \<lparr>count_success = 1, count_fail = 0, count_tlsa_usable = 1\<rparr> \<and>
   (\<exists>t2. address_loop cfg_dane True [tlsa_ee] [(addr_v6, answers_unusable)]
            \<lparr>count_success = 1, count_fail = 0, count_tlsa_usable = 1\<rparr>
          = Some (t2, \<lparr>count_success = 2, count_fail = 0, count_tlsa_usable = 1\<rparr>) \<and>
         Diag ''No usable TLSA records present.'' \<notin> set t2) \<and>
   Diag ''No usable TLSA records present.''
     \<in> set (fst (the (attempt cfg_dane True [tlsa_ee] addr_v6 answers_unusable counters0))) \<and>
   snd (the (attempt cfg_dane True [tlsa_ee] addr_v6 answers_unusable counters0))
     = \<lparr>count_success = 0, count_fail = 1, count_tlsa_usable = 0\<rparr>"
proof -
  let ?c1 = "\<lparr>count_success = 1, count_fail = 0, count_tlsa_usable = 1\<rparr>"
  let ?c2 = "\<lparr>count_success = 2, count_fail = 0, count_tlsa_usable = 1\<rparr>"
  have w: "\<exists>t. address_loop cfg_dane True [tlsa_ee]
      ([(addr_v4, answers_ok)] @ [(addr_v6, answers_unusable)]) counters0 = Some (t, ?c2)"
    by (simp add: run_defs input_defs)
  have e: "\<exists>t. address_loop cfg_dane True [tlsa_ee] [(addr_v4, answers_ok)] counters0
      = Some (t, ?c1)"
    by (simp add: run_defs input_defs)
  from w obtain t where r: "address_loop cfg_dane True [tlsa_ee]
      ([(addr_v4, answers_ok)] @ [(addr_v6, answers_unusable)]) counters0 = Some (t, ?c2)"
    by blast
  from usable_count_never_reset [THEN conjunct1, rule_format, OF r]
  obtain t1 c1 t2 where
    a1: "address_loop cfg_dane True [tlsa_ee] [(addr_v4, answers_ok)] counters0 = Some (t1, c1)"
    and a2: "address_loop cfg_dane True [tlsa_ee] [(addr_v6, answers_unusable)] c1
       = Some (t2, ?c2)"
    and a3: "0 < count_tlsa_usable c1 \<longrightarrow>
       Diag ''No usable TLSA records present.'' \<notin> set t2"
    by blast
  from e a1 have c1: "c1 = ?c1" by auto
  with a2 a3 have l: "\<exists>t2. address_loop cfg_dane True [tlsa_ee] [(addr_v6, answers_unusable)] ?c1
          = Some (t2, ?c2) \<and> Diag ''No usable TLSA records present.'' \<notin> set t2"
    by auto
  have a: "\<exists>t. attempt cfg_dane True [tlsa_ee] addr_v6 answers_unusable counters0
      = Some (t, \<lparr>count_success = 0, count_fail = 1, count_tlsa_usable = 0\<rparr>) \<and>
      Diag ''No usable TLSA records present.'' \<in> set t"
    by (simp add: run_defs input_defs)
  from e l a show ?thesis by auto
qed

text \<open>
  C10. In PKIX-only mode \<open>get_tlsa\<close> is not called, \<open>tlsa_rdata_list\<close> stays empty and
  \<open>attempt_dane\<close> stays false. A run has no \<open>SSL_dane_enable\<close> and no
  \<open>SSL_dane_tlsa_add\<close>, and every session that is created is bound with
  \<open>SSL_set1_host\<close> as its first call.
\<close>

theorem pkix_only_skips_tlsa:
  "auth_mode cfg = MODE_PKIX \<Longrightarrow>
     tlsa_rdata_list (startup cfg w) = [] \<and> \<not> attempt_dane (startup cfg w) \<and>
     (\<forall>r. main cfg w = Some r \<longrightarrow>
        Get_tlsa \<notin> set (trace r) \<and> (\<forall>h. SSL_dane_enable h \<notin> set (trace r)) \<and>
        (\<forall>rp. SSL_dane_tlsa_add rp \<notin> set (trace r))) \<and>
     (\<forall>gaip ans c t c'.
        attempt cfg (attempt_dane (startup cfg w)) (tlsa_rdata_list (startup cfg w)) gaip ans c
          = Some (t, c') \<and>
        socket_rc ans \<noteq> - 1 \<and> connect_rc ans \<noteq> - 1 \<and> SSL_new_ok ans \<longrightarrow>
        (\<exists>rest. t = [Socket gaip, Connect gaip, SSL_new, SSL_set1_host (hostname cfg)] @ rest))"
proof -
  assume m: "auth_mode cfg = MODE_PKIX"
  then have l: "tlsa_rdata_list (startup cfg w) = []"
    by (simp add: startup_tlsa_rdata_list)
  from m have d: "\<not> attempt_dane (startup cfg w)"
    by (simp add: startup_attempt_dane)
  have tr: "Get_tlsa \<notin> set (trace r) \<and> (\<forall>h. SSL_dane_enable h \<notin> set (trace r)) \<and>
        (\<forall>rp. SSL_dane_tlsa_add rp \<notin> set (trace r))" if "main cfg w = Some r" for r
    using main_events [OF that] m d by auto
  have at: "\<exists>rest. t = [Socket gaip, Connect gaip, SSL_new, SSL_set1_host (hostname cfg)] @ rest"
    if "attempt cfg False [] gaip ans c = Some (t, c') \<and>
        socket_rc ans \<noteq> - 1 \<and> connect_rc ans \<noteq> - 1 \<and> SSL_new_ok ans" for gaip ans c t c'
    using that by (auto simp: attempt_def split: if_splits option.splits)
  from l d tr at show ?thesis by simp
qed

text \<open>
  PKIX-only mode against a host that has an authenticated TLSA record: the record is never
  fetched, and the session of the first address begins with \<open>SSL_set1_host\<close>.
\<close>

theorem pkix_only_skips_tlsa_witness:
  "auth_mode cfg_pkix = MODE_PKIX \<and> get_tlsa_ans world_secure = [tlsa_ee] \<and>
   tlsa_rdata_list (startup cfg_pkix world_secure) = [] \<and>
   \<not> attempt_dane (startup cfg_pkix world_secure) \<and>
   main cfg_pkix world_secure \<noteq> None \<and>
   Get_tlsa \<notin> set (trace (the (main cfg_pkix world_secure))) \<and>
   (\<forall>h. SSL_dane_enable h \<notin> set (trace (the (main cfg_pkix world_secure)))) \<and>
   (\<forall>rp. SSL_dane_tlsa_add rp \<notin> set (trace (the (main cfg_pkix world_secure)))) \<and>
   status (the (main cfg_pkix world_secure)) = 1 \<and>
   attempt cfg_pkix False [] addr_v4 answers_ok counters0 =
     Some ([Socket addr_v4, Connect addr_v4, SSL_new, SSL_set1_host ''www.example.com'',
            SSL_set_tlsext_host_name ''www.example.com'', SSL_set_hostflags 4,
            SSL_set_connect_state, SSL_set_bio, SSL_set_mode_AUTO_RETRY, SSL_connect,
            SSL_get_verify_result, SSL_shutdown, SSL_free, Close],
           \<lparr>count_success = 1, count_fail = 0, count_tlsa_usable = 0\<rparr>)"
proof -
  have m: "auth_mode cfg_pkix = MODE_PKIX"
    by (simp add: input_defs)
  have g: "get_tlsa_ans world_secure = [tlsa_ee]"
    by (simp add: input_defs)
  have e: "main cfg_pkix world_secure \<noteq> None"
    by (simp add: run_defs input_defs)
  then obtain r where r: "main cfg_pkix world_secure = Some r" by blast
  have s: "status (the (main cfg_pkix world_secure)) = 1"
    by (simp add: run_defs input_defs)
  have a: "attempt cfg_pkix False [] addr_v4 answers_ok counters0 =
     Some ([Socket addr_v4, Connect addr_v4, SSL_new, SSL_set1_host ''www.example.com'',
            SSL_set_tlsext_host_name ''www.example.com'', SSL_set_hostflags 4,
            SSL_set_connect_state, SSL_set_bio, SSL_set_mode_AUTO_RETRY, SSL_connect,
            SSL_get_verify_result, SSL_shutdown, SSL_free, Close],
           \<lparr>count_success = 1, count_fail = 0, count_tlsa_usable = 0\<rparr>)"
    by (simp add: run_defs input_defs X509_CHECK_FLAG_NO_PARTIAL_WILDCARDS_def)
  from pkix_only_skips_tlsa [OF m, of world_secure] r
  have "tlsa_rdata_list (startup cfg_pkix world_secure) = []"
    and "\<not> attempt_dane (startup cfg_pkix world_secure)"
    and "Get_tlsa \<notin> set (trace r)"
    and "\<forall>h. SSL_dane_enable h \<notin> set (trace r)"
    and "\<forall>rp. SSL_dane_tlsa_add rp \<notin> set (trace r)"
    by blast+
  with m g e r s a show ?thesis by simp
qed

end
